theory Spec2Isabelle
  imports Main "HOL-Library.Word" "HOL-Library.AList"
begin

section \<open>The file system and the \<open>os\<close> package as the appender sees them\<close>

text \<open>
  The appender of \<^verbatim>\<open>rolling_file_appender.go\<close> talks to the operating system through
  \<^verbatim>\<open>os.OpenFile\<close>, \<^verbatim>\<open>os.Create\<close>, \<^verbatim>\<open>os.Rename\<close> and the methods \<^verbatim>\<open>Stat\<close>,
  \<^verbatim>\<open>WriteString\<close>, \<^verbatim>\<open>Sync\<close> and \<^verbatim>\<open>Close\<close> of \<^verbatim>\<open>*os.File\<close>. A \<^verbatim>\<open>*os.File\<close> is a pointer:
  copies of the appender struct share the file object, so the objects live in a store
  (\<open>files\<close>) and the pointer is an index into it (\<open>None\<close> is the nil pointer).
  A file object refers to an inode, which survives a rename; the directory maps paths
  to inodes. Every call may fail for reasons outside the program: the world carries a
  script of injected failures, one entry consumed by each call. Every call and its
  outcome is appended to \<open>trace\<close>; every call of the appender's error callback is
  appended to \<open>sink\<close>.
\<close>

type_synonym path = string

datatype oserr = ErrInvalid | ErrClosed | ErrNotExist | ErrInjected nat

record osfile =
  inode :: nat
  closed :: bool
  pos :: nat
  appendMode :: bool

datatype oscall =
    CallOpenAppend path
  | CallStat "nat option"
  | CallWrite "nat option" string
  | CallSync "nat option"
  | CallClose "nat option"
  | CallRename path path
  | CallOpenRDWR path
  | CallCreate path

text \<open>The error values of the package, as handed to the error callback.\<close>

datatype err =
    CloseError path oserr
  | NoFileError
  | OpenError path oserr
  | RenameError path path oserr
  | WriteError path oserr

record world =
  files :: "osfile list"
  inodes :: "string list"
  dir :: "(path \<times> nat) list"
  faults :: "oserr option list"
  trace :: "(oscall \<times> oserr option) list"
  sink :: "err list"

definition next_fault :: "world \<Rightarrow> oserr option \<times> world" where
  "next_fault w =
     (case faults w of
        [] \<Rightarrow> (None, w)
      | f # fs \<Rightarrow> (f, w\<lparr>faults := fs\<rparr>))"

definition logcall :: "oscall \<Rightarrow> oserr option \<Rightarrow> world \<Rightarrow> world" where
  "logcall c r w = w\<lparr>trace := trace w @ [(c, r)]\<rparr>"

text \<open>
  The open file object behind a pointer: nil, dangling and closed ones have none. The
  content of an inode; a number that is not an inode's has none, and no call makes one.
\<close>

definition open_file :: "world \<Rightarrow> nat option \<Rightarrow> (nat \<times> osfile) option" where
  "open_file w fp =
     (case fp of
        None \<Rightarrow> None
      | Some f \<Rightarrow>
          if f < length (files w) \<and> \<not> closed (files w ! f) then Some (f, files w ! f) else None)"

definition content :: "world \<Rightarrow> nat \<Rightarrow> string" where
  "content w i = (if i < length (inodes w) then inodes w ! i else [])"

definition handle_err :: "nat option \<Rightarrow> oserr" where
  "handle_err fp = (case fp of None \<Rightarrow> ErrInvalid | Some f \<Rightarrow> ErrClosed)"

definition new_file :: "nat \<Rightarrow> bool \<Rightarrow> world \<Rightarrow> nat \<times> world" where
  "new_file i app w =
     (length (files w),
      w\<lparr>files := files w @ [\<lparr>inode = i, closed = False, pos = 0, appendMode = app\<rparr>]\<rparr>)"

text \<open>\<^verbatim>\<open>os.OpenFile(p, os.O_WRONLY | os.O_APPEND | os.O_CREATE, 0666)\<close>\<close>

definition os_OpenFile_append :: "path \<Rightarrow> world \<Rightarrow> (oserr + nat) \<times> world" where
  "os_OpenFile_append p w =
     (case next_fault w of
        (Some e, w1) \<Rightarrow> (Inl e, logcall (CallOpenAppend p) (Some e) w1)
      | (None, w1) \<Rightarrow>
          (case map_of (dir w1) p of
             Some i \<Rightarrow>
               (case new_file i True w1 of
                  (f, w2) \<Rightarrow> (Inr f, logcall (CallOpenAppend p) None w2))
           | None \<Rightarrow>
               (case new_file (length (inodes w1)) True
                       (w1\<lparr>inodes := inodes w1 @ [[]],
                           dir := AList.update p (length (inodes w1)) (dir w1)\<rparr>) of
                  (f, w2) \<Rightarrow> (Inr f, logcall (CallOpenAppend p) None w2))))"

text \<open>\<^verbatim>\<open>file.Stat()\<close>, of which the appender reads \<^verbatim>\<open>Size()\<close> only.\<close>

definition file_Stat :: "nat option \<Rightarrow> world \<Rightarrow> (oserr + nat) \<times> world" where
  "file_Stat fp w =
     (case next_fault w of
        (Some e, w1) \<Rightarrow> (Inl e, logcall (CallStat fp) (Some e) w1)
      | (None, w1) \<Rightarrow>
          (case open_file w1 fp of
             None \<Rightarrow> (Inl (handle_err fp), logcall (CallStat fp) (Some (handle_err fp)) w1)
           | Some (f, fo) \<Rightarrow> (Inr (length (content w1 (inode fo))), logcall (CallStat fp) None w1)))"

text \<open>
  \<^verbatim>\<open>file.WriteString(msg)\<close> returns the number of bytes written and an error. A file
  opened with \<^verbatim>\<open>O_APPEND\<close> writes at the end, any other at its own position (a gap is
  filled with zero bytes). A failed write writes nothing.
\<close>

definition write_at :: "nat \<Rightarrow> string \<Rightarrow> string \<Rightarrow> string" where
  "write_at off msg c =
     take off c @ replicate (off - length c) (CHR 0x00) @ msg @ drop (off + length msg) c"

definition file_WriteString :: "nat option \<Rightarrow> string \<Rightarrow> world \<Rightarrow> (nat \<times> oserr option) \<times> world" where
  "file_WriteString fp msg w =
     (case next_fault w of
        (Some e, w1) \<Rightarrow> ((0, Some e), logcall (CallWrite fp msg) (Some e) w1)
      | (None, w1) \<Rightarrow>
          (case open_file w1 fp of
             None \<Rightarrow> ((0, Some (handle_err fp)), logcall (CallWrite fp msg) (Some (handle_err fp)) w1)
           | Some (f, fo) \<Rightarrow>
               (let c = content w1 (inode fo);
                    off = (if appendMode fo then length c else pos fo)
                in ((length msg, None),
                    logcall (CallWrite fp msg) None
                      (w1\<lparr>inodes := (inodes w1)[inode fo := write_at off msg c],
                          files := (files w1)[f := fo\<lparr>pos := off + length msg\<rparr>]\<rparr>)))))"

text \<open>\<^verbatim>\<open>file.Sync()\<close>\<close>

definition file_Sync :: "nat option \<Rightarrow> world \<Rightarrow> oserr option \<times> world" where
  "file_Sync fp w =
     (case next_fault w of
        (Some e, w1) \<Rightarrow> (Some e, logcall (CallSync fp) (Some e) w1)
      | (None, w1) \<Rightarrow>
          (case open_file w1 fp of
             None \<Rightarrow> (Some (handle_err fp), logcall (CallSync fp) (Some (handle_err fp)) w1)
           | Some (f, fo) \<Rightarrow> (None, logcall (CallSync fp) None w1)))"

text \<open>
  \<^verbatim>\<open>file.Close()\<close>: an open file object is closed for good even when the system call
  reports an error; a nil or closed one gives an error.
\<close>

definition file_Close :: "nat option \<Rightarrow> world \<Rightarrow> oserr option \<times> world" where
  "file_Close fp w =
     (case next_fault w of
        (flt, w1) \<Rightarrow>
          (case open_file w1 fp of
             None \<Rightarrow>
               (let e = (case flt of None \<Rightarrow> handle_err fp | Some e \<Rightarrow> e)
                in (Some e, logcall (CallClose fp) (Some e) w1))
           | Some (f, fo) \<Rightarrow>
               (flt, logcall (CallClose fp) flt
                       (w1\<lparr>files := (files w1)[f := fo\<lparr>closed := True\<rparr>]\<rparr>))))"

text \<open>\<^verbatim>\<open>os.Rename(old, new)\<close>\<close>

definition os_Rename :: "path \<Rightarrow> path \<Rightarrow> world \<Rightarrow> oserr option \<times> world" where
  "os_Rename old new w =
     (case next_fault w of
        (Some e, w1) \<Rightarrow> (Some e, logcall (CallRename old new) (Some e) w1)
      | (None, w1) \<Rightarrow>
          (case map_of (dir w1) old of
             None \<Rightarrow> (Some ErrNotExist, logcall (CallRename old new) (Some ErrNotExist) w1)
           | Some i \<Rightarrow>
               (None, logcall (CallRename old new) None
                        (w1\<lparr>dir := AList.update new i (AList.delete old (dir w1))\<rparr>))))"

text \<open>\<^verbatim>\<open>os.OpenFile(p, os.O_RDWR, 0666)\<close>: the file must exist; writes start at offset 0.\<close>

definition os_OpenFile_rdwr :: "path \<Rightarrow> world \<Rightarrow> (oserr + nat) \<times> world" where
  "os_OpenFile_rdwr p w =
     (case next_fault w of
        (Some e, w1) \<Rightarrow> (Inl e, logcall (CallOpenRDWR p) (Some e) w1)
      | (None, w1) \<Rightarrow>
          (case map_of (dir w1) p of
             None \<Rightarrow> (Inl ErrNotExist, logcall (CallOpenRDWR p) (Some ErrNotExist) w1)
           | Some i \<Rightarrow>
               (case new_file i False w1 of
                  (f, w2) \<Rightarrow> (Inr f, logcall (CallOpenRDWR p) None w2))))"

text \<open>\<^verbatim>\<open>os.Create(p)\<close>: creates the file or truncates the one that is there.\<close>

definition os_Create :: "path \<Rightarrow> world \<Rightarrow> (oserr + nat) \<times> world" where
  "os_Create p w =
     (case next_fault w of
        (Some e, w1) \<Rightarrow> (Inl e, logcall (CallCreate p) (Some e) w1)
      | (None, w1) \<Rightarrow>
          (case map_of (dir w1) p of
             Some i \<Rightarrow>
               (case new_file i False (w1\<lparr>inodes := (inodes w1)[i := []]\<rparr>) of
                  (f, w2) \<Rightarrow> (Inr f, logcall (CallCreate p) None w2))
           | None \<Rightarrow>
               (case new_file (length (inodes w1)) False
                       (w1\<lparr>inodes := inodes w1 @ [[]],
                           dir := AList.update p (length (inodes w1)) (dir w1)\<rparr>) of
                  (f, w2) \<Rightarrow> (Inr f, logcall (CallCreate p) None w2))))"

section \<open>What the appender takes from outside its file\<close>

text \<open>
  Modelled from the spec: the severity levels of the parent package \<^verbatim>\<open>slogger\<close>, which
  is imported as \<^verbatim>\<open>".."\<close> and is not among the sources. The spec only says that the
  level of a record is an ordered severity; the appender names \<^verbatim>\<open>slogger.INFO\<close> and
  \<^verbatim>\<open>slogger.WARN\<close>.
\<close>

datatype Level = INFO | WARN | OtherLevel nat

text \<open>An element of \<^verbatim>\<open>[]interface{}\<close>, as far as the appender builds one.\<close>

datatype arg = IntArg int | StrArg string

text \<open>A \<^verbatim>\<open>time.Time\<close> in local time, as far as \<^verbatim>\<open>newRotatedFilename\<close> reads it.\<close>

record tm =
  Year :: nat
  Month :: nat
  Day :: nat
  Hour :: nat
  Minute :: nat
  Second :: nat

text \<open>
  \<^verbatim>\<open>slogger.Log\<close>, with the fields that \<^verbatim>\<open>simpleLog\<close> fills in.
\<close>

record Log =
  Prefix :: string
  Level :: Level
  Filename :: string
  Line :: int
  Timestamp :: tm
  MessageFmt :: string
  Args :: "arg list"

text \<open>
  What the appender calls and does not define is a parameter of the model:
  \<^verbatim>\<open>slogger.FormatLog\<close> of the parent package, \<^verbatim>\<open>filepath.Abs\<close>,
  \<^verbatim>\<open>runtime.Caller\<close> (\<open>None\<close> when it reports \<^verbatim>\<open>!ok\<close>) and \<^verbatim>\<open>time.Now\<close>. The
  model has no clock and no call stack: within one environment every call of
  \<^verbatim>\<open>time.Now\<close> gives the same time, and \<^verbatim>\<open>runtime.Caller\<close> depends on its argument
  alone.
\<close>

record env =
  FormatLog :: "Log \<Rightarrow> string"
  filepath_Abs :: "path \<Rightarrow> oserr + path"
  runtime_Caller :: "int \<Rightarrow> (string \<times> int) option"
  time_Now :: tm

section \<open>The appender\<close>

definition APPEND_CHANNEL_SIZE :: nat where
  "APPEND_CHANNEL_SIZE = 4096"

text \<open>
  The struct \<^verbatim>\<open>RollingFileAppender\<close>. The two channels are references to queues
  shared by all copies of the struct: they live in the state of the running system
  below. \<^verbatim>\<open>errHandler\<close> is user code (or the empty function that \<^verbatim>\<open>New\<close> puts in
  place of nil): a call of it is recorded in \<open>sink\<close>. \<^verbatim>\<open>headerGenerator\<close> is nil or a
  function that returns the header text.
\<close>

record RollingFileAppender =
  MaxFileSize :: "64 word"
  "file" :: "nat option"
  absPath :: path
  curFileSize :: "64 word"
  headerGenerator :: "string option"

definition errHandler :: "err \<Rightarrow> world \<Rightarrow> world" where
  "errHandler e w = w\<lparr>sink := sink w @ [e]\<rparr>"

definition simpleLog :: "env \<Rightarrow> string \<Rightarrow> Level \<Rightarrow> int \<Rightarrow> string \<Rightarrow> arg list \<Rightarrow> Log" where
  "simpleLog E prefix level callerSkip messageFmt args =
     (case (case runtime_Caller E callerSkip of
              None \<Rightarrow> (''UNKNOWN_FILE'', - 1)
            | Some fl \<Rightarrow> fl) of
        (file', line') \<Rightarrow>
          \<lparr>Prefix = prefix, Level = level, Filename = file', Line = line',
           Timestamp = time_Now E, MessageFmt = messageFmt, Args = args\<rparr>)"

definition internalWarningLog :: "env \<Rightarrow> string \<Rightarrow> arg list \<Rightarrow> Log" where
  "internalWarningLog E messageFmt args =
     simpleLog E ''RollingFileAppender'' WARN 3 messageFmt args"

definition fullWarningLog :: "env \<Rightarrow> Log" where
  "fullWarningLog E =
     internalWarningLog E
       ''appendCh is full. You may want to increase APPEND_CHANNEL_SIZE (currently %d).''
       [IntArg (int APPEND_CHANNEL_SIZE)]"

text \<open>\<^verbatim>\<open>%d\<close> and \<^verbatim>\<open>%02d\<close> of \<^verbatim>\<open>fmt.Sprintf\<close>, on numbers that are not negative.\<close>

definition digit :: "nat \<Rightarrow> char" where
  "digit n = ''0123456789'' ! (n mod 10)"

function decimal :: "nat \<Rightarrow> string" where
  "decimal n = (if n < 10 then [digit n] else decimal (n div 10) @ [digit n])"
  by pat_completeness auto
termination
  by (relation "measure (\<lambda>n. n)") auto

declare decimal.simps [simp del]

definition decimal02 :: "nat \<Rightarrow> string" where
  "decimal02 n = (if n < 10 then CHR ''0'' # decimal n else decimal n)"

definition newRotatedFilename :: "env \<Rightarrow> path \<Rightarrow> path" where
  "newRotatedFilename E baseFilename =
     (let now = time_Now E
      in baseFilename @ ''.'' @ decimal (Year now) @ ''-'' @ decimal02 (Month now) @ ''-'' @
         decimal02 (Day now) @ ''T'' @ decimal02 (Hour now) @ ''-'' @ decimal02 (Minute now) @
         ''-'' @ decimal02 (Second now))"

text \<open>
  Every method of the appender has a value receiver: \<^verbatim>\<open>self\<close> is a copy of the
  caller's struct, made at the call, and an assignment to a field of \<^verbatim>\<open>self\<close> changes
  that copy. A method is modelled by its body, which returns the receiver as it is when
  the body ends together with the method's result and the world; a call keeps the
  result and the world and drops the receiver, as Go does.
\<close>

definition renameLogFile ::
  "RollingFileAppender \<Rightarrow> path \<Rightarrow> path \<Rightarrow> world \<Rightarrow> RollingFileAppender \<times> bool \<times> world" where
  "renameLogFile self oldFilename newFilename w =
     (case os_Rename oldFilename newFilename w of
        (Some e, w1) \<Rightarrow>
          (case os_OpenFile_rdwr oldFilename (errHandler (RenameError oldFilename newFilename e) w1) of
             (Inr f, w2) \<Rightarrow> (self\<lparr>file := Some f\<rparr>, False, w2)
           | (Inl e2, w2) \<Rightarrow>
               (self\<lparr>curFileSize := 0, file := None\<rparr>, False,
                errHandler (OpenError oldFilename e2) w2))
      | (None, w1) \<Rightarrow> (self\<lparr>curFileSize := 0\<rparr>, True, w1))"

function
  reallyAppend :: "env \<Rightarrow> RollingFileAppender \<Rightarrow> Log \<Rightarrow> bool \<Rightarrow> world \<Rightarrow> RollingFileAppender \<times> world" and
  rotate :: "env \<Rightarrow> RollingFileAppender \<Rightarrow> world \<Rightarrow> RollingFileAppender \<times> world" and
  logHeader :: "env \<Rightarrow> RollingFileAppender \<Rightarrow> world \<Rightarrow> RollingFileAppender \<times> world"
where
  "reallyAppend E self log trackSize w =
     (case file self of
        None \<Rightarrow> (self, errHandler NoFileError w)
      | Some f \<Rightarrow>
          (case file_WriteString (file self) (FormatLog E log) w of
             ((n, Some e), w1) \<Rightarrow> (self, errHandler (WriteError (absPath self) e) w1)
           | ((n, None), w1) \<Rightarrow>
               if trackSize then
                 (if curFileSize self + of_nat n > MaxFileSize self
                  then (self\<lparr>curFileSize := curFileSize self + of_nat n\<rparr>,
                        snd (rotate E (self\<lparr>curFileSize := curFileSize self + of_nat n\<rparr>) w1))
                  else (self\<lparr>curFileSize := curFileSize self + of_nat n\<rparr>, w1))
               else (self, w1)))"
| "rotate E self w =
     (case file_Close (file self) w of
        (cerr, w1) \<Rightarrow>
          (case renameLogFile self (absPath self) (newRotatedFilename E (absPath self))
                  (case cerr of
                     Some e \<Rightarrow> errHandler (CloseError (absPath self) e) w1
                   | None \<Rightarrow> w1) of
             (_, False, w2) \<Rightarrow> (self, w2)
           | (_, True, w2) \<Rightarrow>
               (case os_Create (absPath self) w2 of
                  (Inl e, w3) \<Rightarrow> (self\<lparr>file := None\<rparr>, errHandler (OpenError (absPath self) e) w3)
                | (Inr f, w3) \<Rightarrow>
                    (self\<lparr>file := Some f\<rparr>, snd (logHeader E (self\<lparr>file := Some f\<rparr>) w3)))))"
| "logHeader E self w =
     (case headerGenerator self of
        None \<Rightarrow> (self, w)
      | Some header \<Rightarrow>
          (self, snd (reallyAppend E self (simpleLog E ''header'' INFO 3 header []) False w)))"
  by pat_completeness auto
termination
  by (relation "measure (\<lambda>x. case x of
         Inl (E, self, log, trackSize, w) \<Rightarrow> (if trackSize then 3 else 0)
       | Inr (Inl (E, self, w)) \<Rightarrow> 2
       | Inr (Inr (E, self, w)) \<Rightarrow> 1)") auto

section \<open>The running system: producers, the writer loop and Close\<close>

text \<open>
  \<^verbatim>\<open>New\<close> starts one goroutine that runs \<^verbatim>\<open>listenForAppends\<close>; any number of threads
  call \<^verbatim>\<open>Append\<close>, and one thread calls \<^verbatim>\<open>Close\<close>. The threads share the channel
  \<^verbatim>\<open>appendCh\<close> (a queue of capacity \<open>APPEND_CHANNEL_SIZE\<close>), the unbuffered channel
  \<^verbatim>\<open>syncCh\<close> and the world. The system is a transition system: each event is one
  step of one thread, and a step that would block is not enabled (\<open>None\<close>).

  \<open>appender\<close> is the struct that \<^verbatim>\<open>New\<close> returns a pointer to, \<open>loopSelf\<close> the
  receiver of \<^verbatim>\<open>listenForAppends\<close>: the copy of the struct made by
  \<^verbatim>\<open>go appender.listenForAppends()\<close>. \<open>sentLog\<close> is a history variable: every send
  on \<^verbatim>\<open>appendCh\<close> with the thread that made it, in order.
\<close>

datatype pstate =
    PReady
  | PWarn Log
  | PRecord Log
  | PReturned "err option"

datatype cstate =
    CReady
  | CWaiting RollingFileAppender
  | CDrained RollingFileAppender
  | CReturned "oserr option"

record sys =
  os :: world
  appendCh :: "Log list"
  sentLog :: "(nat \<times> Log) list"
  appender :: RollingFileAppender
  loopSelf :: RollingFileAppender
  needsSync :: bool
  producers :: "(nat \<times> pstate) list"
  closer :: cstate

text \<open>
  \<^verbatim>\<open>New\<close>: the errors of \<^verbatim>\<open>filepath.Abs\<close>, \<^verbatim>\<open>os.OpenFile\<close> and \<^verbatim>\<open>file.Stat\<close> are
  returned as they are. The writer goroutine starts with an empty queue, and the
  constructor's thread writes the header. The parameter \<^verbatim>\<open>errHandler\<close> has no
  counterpart: whichever function it is, its calls are recorded in \<open>sink\<close>.
\<close>

definition New :: "env \<Rightarrow> path \<Rightarrow> 64 word \<Rightarrow> string option \<Rightarrow> world \<Rightarrow> (oserr \<times> world) + sys" where
  "New E filename maxFileSize headerGenerator' w =
     (case filepath_Abs E filename of
        Inl e \<Rightarrow> Inl (e, w)
      | Inr absPath' \<Rightarrow>
          (case os_OpenFile_append absPath' w of
             (Inl e, w1) \<Rightarrow> Inl (e, w1)
           | (Inr f, w1) \<Rightarrow>
               (case file_Stat (Some f) w1 of
                  (Inl e, w2) \<Rightarrow> Inl (e, w2)
                | (Inr size', w2) \<Rightarrow>
                    (let appender' = \<lparr>MaxFileSize = maxFileSize, file = Some f, absPath = absPath',
                                       curFileSize = of_nat size', headerGenerator = headerGenerator'\<rparr>
                     in Inr \<lparr>os = snd (logHeader E appender' w2), appendCh = [], sentLog = [],
                             appender = appender', loopSelf = appender', needsSync = False,
                             producers = [], closer = CReady\<rparr>))))"

definition producer :: "sys \<Rightarrow> nat \<Rightarrow> pstate" where
  "producer s p = (case map_of (producers s) p of None \<Rightarrow> PReady | Some st \<Rightarrow> st)"

definition set_producer :: "nat \<Rightarrow> pstate \<Rightarrow> sys \<Rightarrow> sys" where
  "set_producer p st s = s\<lparr>producers := AList.update p st (producers s)\<rparr>"

text \<open>A send on \<^verbatim>\<open>appendCh\<close> by thread \<open>p\<close>: it blocks while the queue is full.\<close>

definition chan_send :: "nat \<Rightarrow> Log \<Rightarrow> sys \<Rightarrow> sys option" where
  "chan_send p log s =
     (if length (appendCh s) < APPEND_CHANNEL_SIZE
      then Some (s\<lparr>appendCh := appendCh s @ [log], sentLog := sentLog s @ [(p, log)]\<rparr>)
      else None)"

text \<open>
  \<^verbatim>\<open>Append\<close>, in its three steps: the \<^verbatim>\<open>select\<close> that sends the record or falls to
  \<^verbatim>\<open>default\<close>; there the send of the warning; then the send of the record and
  \<^verbatim>\<open>return nil\<close>.
\<close>

definition Append_select :: "nat \<Rightarrow> Log \<Rightarrow> sys \<Rightarrow> sys option" where
  "Append_select p log s =
     (case producer s p of
        PWarn l \<Rightarrow> None
      | PRecord l \<Rightarrow> None
      | _ \<Rightarrow>
          (case chan_send p log s of
             Some s1 \<Rightarrow> Some (set_producer p (PReturned None) s1)
           | None \<Rightarrow> Some (set_producer p (PWarn log) s)))"

definition Append_warning :: "env \<Rightarrow> nat \<Rightarrow> sys \<Rightarrow> sys option" where
  "Append_warning E p s =
     (case producer s p of
        PWarn log \<Rightarrow>
          (case chan_send p (fullWarningLog E) s of
             Some s1 \<Rightarrow> Some (set_producer p (PRecord log) s1)
           | None \<Rightarrow> None)
      | _ \<Rightarrow> None)"

definition Append_record :: "nat \<Rightarrow> sys \<Rightarrow> sys option" where
  "Append_record p s =
     (case producer s p of
        PRecord log \<Rightarrow>
          (case chan_send p log s of
             Some s1 \<Rightarrow> Some (set_producer p (PReturned None) s1)
           | None \<Rightarrow> None)
      | _ \<Rightarrow> None)"

text \<open>
  One turn of the loop of \<^verbatim>\<open>listenForAppends\<close> that takes a record from \<^verbatim>\<open>appendCh\<close>
  or, with \<^verbatim>\<open>needsSync\<close> set and the queue empty, the \<^verbatim>\<open>default\<close> branch. The result
  of \<^verbatim>\<open>Sync\<close> is not looked at. The loop's \<^verbatim>\<open>self\<close> is never assigned to.
\<close>

definition listenForAppends :: "env \<Rightarrow> sys \<Rightarrow> sys option" where
  "listenForAppends E s =
     (if needsSync s then
        (case appendCh s of
           log # rest \<Rightarrow>
             Some (s\<lparr>appendCh := rest, os := snd (reallyAppend E (loopSelf s) log True (os s))\<rparr>)
         | [] \<Rightarrow>
             Some (s\<lparr>os := snd (file_Sync (file (loopSelf s)) (os s)), needsSync := False\<rparr>))
      else
        (case appendCh s of
           log # rest \<Rightarrow>
             Some (s\<lparr>appendCh := rest, os := snd (reallyAppend E (loopSelf s) log True (os s)),
                     needsSync := True\<rparr>)
         | [] \<Rightarrow> None))"

text \<open>
  \<^verbatim>\<open>Close\<close> copies the struct, and \<^verbatim>\<open>waitUntilEmpty\<close> sends its reply channel on
  \<^verbatim>\<open>syncCh\<close>. The loop receives from \<^verbatim>\<open>syncCh\<close> only in the branch without
  \<^verbatim>\<open>needsSync\<close>, and replies \<^verbatim>\<open>len(self.appendCh) <= 0\<close>; on \<^verbatim>\<open>false\<close> the caller
  asks again. Request and reply are one step. After \<^verbatim>\<open>true\<close>, \<^verbatim>\<open>Close\<close> returns what
  \<^verbatim>\<open>self.file.Close()\<close> returns.
\<close>

definition Close_call :: "sys \<Rightarrow> sys option" where
  "Close_call s =
     (case closer s of
        CWaiting self \<Rightarrow> None
      | CDrained self \<Rightarrow> None
      | _ \<Rightarrow> Some (s\<lparr>closer := CWaiting (appender s)\<rparr>))"

definition waitUntilEmpty :: "sys \<Rightarrow> sys option" where
  "waitUntilEmpty s =
     (case closer s of
        CWaiting self \<Rightarrow>
          if needsSync s then None
          else Some (s\<lparr>closer := (if length (appendCh s) \<le> 0 then CDrained self else CWaiting self)\<rparr>)
      | _ \<Rightarrow> None)"

definition Close_file :: "sys \<Rightarrow> sys option" where
  "Close_file s =
     (case closer s of
        CDrained self \<Rightarrow>
          (case file_Close (file self) (os s) of
             (r, w) \<Rightarrow> Some (s\<lparr>os := w, closer := CReturned r\<rparr>))
      | _ \<Rightarrow> None)"

datatype event =
    EvAppend nat Log
  | EvWarning nat
  | EvRecord nat
  | EvLoop
  | EvClose
  | EvDrain
  | EvCloseFile

fun step :: "env \<Rightarrow> event \<Rightarrow> sys \<Rightarrow> sys option" where
  "step E (EvAppend p log) s = Append_select p log s"
| "step E (EvWarning p) s = Append_warning E p s"
| "step E (EvRecord p) s = Append_record p s"
| "step E EvLoop s = listenForAppends E s"
| "step E EvClose s = Close_call s"
| "step E EvDrain s = waitUntilEmpty s"
| "step E EvCloseFile s = Close_file s"

fun run :: "env \<Rightarrow> event list \<Rightarrow> sys \<Rightarrow> sys option" where
  "run E [] s = Some s"
| "run E (ev # evs) s = (case step E ev s of None \<Rightarrow> None | Some s1 \<Rightarrow> run E evs s1)"

section \<open>Concrete inputs\<close>

text \<open>
  An environment whose formatter prints the message template alone, an empty file
  system on which no call fails, and records to run the definitions on.
\<close>

definition demo_env :: env where
  "demo_env =
     \<lparr>FormatLog = MessageFmt, filepath_Abs = Inr, runtime_Caller = (\<lambda>skip. None),
      time_Now = \<lparr>Year = 2012, Month = 3, Day = 4, Hour = 5, Minute = 6, Second = 7\<rparr>\<rparr>"

definition empty_world :: world where
  "empty_world = \<lparr>files = [], inodes = [], dir = [], faults = [], trace = [], sink = []\<rparr>"

definition demo_record :: "string \<Rightarrow> Log" where
  "demo_record m = simpleLog demo_env ''demo'' INFO 0 m []"

definition nil_appender :: RollingFileAppender where
  "nil_appender =
     \<lparr>MaxFileSize = 3, file = None, absPath = ''/log'', curFileSize = 0, headerGenerator = None\<rparr>"

definition nil_sys :: sys where
  "nil_sys =
     \<lparr>os = empty_world, appendCh = [demo_record ''A''], sentLog = [(0, demo_record ''A'')],
      appender = nil_appender, loopSelf = nil_appender, needsSync = False,
      producers = [], closer = CReady\<rparr>"

text \<open>The record that \<^verbatim>\<open>logHeader\<close> builds from the header text.\<close>

definition header_log :: "env \<Rightarrow> string \<Rightarrow> Log" where
  "header_log E header = simpleLog E ''header'' INFO 3 header []"

text \<open>
  An appender with a header of six bytes and a limit of three, on a world whose log
  file holds eleven bytes, and that world after each call of a rotation.
\<close>

definition hdr_appender :: RollingFileAppender where
  "hdr_appender =
     \<lparr>MaxFileSize = 3, file = Some 0, absPath = ''/log'', curFileSize = 0,
      headerGenerator = Some ''HEADER''\<rparr>"

definition live_world :: world where
  "live_world =
     \<lparr>files = [\<lparr>inode = 0, closed = False, pos = 0, appendMode = True\<rparr>],
      inodes = [''HEADERAAAAA''], dir = [(''/log'', 0)], faults = [], trace = [], sink = []\<rparr>"

definition closed_world :: world where
  "closed_world =
     \<lparr>files = [\<lparr>inode = 0, closed = True, pos = 0, appendMode = True\<rparr>],
      inodes = [''HEADERAAAAA''], dir = [(''/log'', 0)], faults = [],
      trace = [(CallClose (Some 0), None)], sink = []\<rparr>"

definition renamed_world :: world where
  "renamed_world =
     \<lparr>files = [\<lparr>inode = 0, closed = True, pos = 0, appendMode = True\<rparr>],
      inodes = [''HEADERAAAAA''], dir = [(''/log.2012-03-04T05-06-07'', 0)], faults = [],
      trace = [(CallClose (Some 0), None),
               (CallRename ''/log'' ''/log.2012-03-04T05-06-07'', None)],
      sink = []\<rparr>"

definition created_world :: world where
  "created_world =
     \<lparr>files = [\<lparr>inode = 0, closed = True, pos = 0, appendMode = True\<rparr>,
               \<lparr>inode = 1, closed = False, pos = 0, appendMode = False\<rparr>],
      inodes = [''HEADERAAAAA'', []],
      dir = [(''/log.2012-03-04T05-06-07'', 0), (''/log'', 1)], faults = [],
      trace = [(CallClose (Some 0), None),
               (CallRename ''/log'' ''/log.2012-03-04T05-06-07'', None),
               (CallCreate ''/log'', None)],
      sink = []\<rparr>"

definition opened_world :: world where
  "opened_world =
     \<lparr>files = [\<lparr>inode = 0, closed = False, pos = 0, appendMode = True\<rparr>],
      inodes = [[]], dir = [(''/log'', 0)], faults = [],
      trace = [(CallOpenAppend ''/log'', None)], sink = []\<rparr>"

definition stat_world :: world where
  "stat_world =
     \<lparr>files = [\<lparr>inode = 0, closed = False, pos = 0, appendMode = True\<rparr>],
      inodes = [[]], dir = [(''/log'', 0)], faults = [],
      trace = [(CallOpenAppend ''/log'', None), (CallStat (Some 0), None)], sink = []\<rparr>"

text \<open>
  What the claims say the error callback receives for a failed call, the claim's words
  turned into a function: a failed write or close gives the error of that name with
  the appender's path and the cause, a failed rename gives both paths and the cause, a
  failed open or create gives the path and the cause. \<open>delivered p w w'\<close>: from \<open>w\<close> to
  \<open>w'\<close> the callback has received just that, in the order of the calls.
\<close>

fun report :: "path \<Rightarrow> oscall \<times> oserr option \<Rightarrow> err list" where
  "report p (CallWrite f m, Some e) = [WriteError p e]"
| "report p (CallClose f, Some e) = [CloseError p e]"
| "report p (CallRename a b, Some e) = [RenameError a b e]"
| "report p (CallOpenRDWR a, Some e) = [OpenError a e]"
| "report p (CallCreate a, Some e) = [OpenError a e]"
| "report p other = []"

definition delivered :: "path \<Rightarrow> world \<Rightarrow> world \<Rightarrow> bool" where
  "delivered p w w' =
     (\<exists>evs. trace w' = trace w @ evs \<and> sink w' = sink w @ concat (map (report p) evs))"

text \<open>A system whose next write fails, with one record in the queue.\<close>

definition failing_sys :: sys where
  "failing_sys =
     \<lparr>os = live_world\<lparr>faults := [Some (ErrInjected 7)]\<rparr>, appendCh = [demo_record ''B''],
      sentLog = [(0, demo_record ''B'')], appender = hdr_appender, loopSelf = hdr_appender,
      needsSync = False, producers = [], closer = CReady\<rparr>"

text \<open>
  What \<^verbatim>\<open>New\<close> gives on the empty world for the path \<^verbatim>\<open>/log\<close>, a limit of three
  bytes and no header generator.
\<close>

definition plain_appender :: RollingFileAppender where
  "plain_appender =
     \<lparr>MaxFileSize = 3, file = Some 0, absPath = ''/log'', curFileSize = 0, headerGenerator = None\<rparr>"

definition fresh_sys :: sys where
  "fresh_sys =
     \<lparr>os = stat_world, appendCh = [], sentLog = [], appender = plain_appender,
      loopSelf = plain_appender, needsSync = False, producers = [], closer = CReady\<rparr>"

text \<open>
  The records that thread \<open>p\<close> has sent on \<^verbatim>\<open>appendCh\<close>, in order, and whether an event
  is a call of \<^verbatim>\<open>Append\<close> by thread \<open>p\<close>.
\<close>

definition sent_by :: "nat \<Rightarrow> sys \<Rightarrow> Log list" where
  "sent_by p s = map snd (filter (\<lambda>x. fst x = p) (sentLog s))"

fun is_call_of :: "nat \<Rightarrow> event \<Rightarrow> bool" where
  "is_call_of p (EvAppend q l) = (q = p)"
| "is_call_of p ev = False"

text \<open>The system after \<^verbatim>\<open>New\<close> with a full queue, filled by thread 1.\<close>

definition full_sys :: sys where
  "full_sys =
     fresh_sys\<lparr>appendCh := replicate 4096 (demo_record ''B''),
               sentLog := replicate 4096 (1, demo_record ''B'')\<rparr>"

text \<open>
  Two relations for the proofs about closed files. \<open>keeps w w'\<close>: from \<open>w\<close> to \<open>w'\<close> no
  file object has gone and none that was closed is open. \<open>close_inv a f s\<close>: the struct
  and the loop's copy are \<open>a\<close>, whose file \<open>f\<close> exists; a caller of \<^verbatim>\<open>Close\<close> holds a
  copy of \<open>a\<close>; and when \<^verbatim>\<open>Close\<close> has returned \<open>f\<close> is closed.
\<close>

definition keeps :: "world \<Rightarrow> world \<Rightarrow> bool" where
  "keeps w w' =
     (length (files w) \<le> length (files w') \<and>
      (\<forall>f. f < length (files w) \<and> closed (files w ! f) \<longrightarrow> closed (files w' ! f)))"

definition close_inv :: "RollingFileAppender \<Rightarrow> nat \<Rightarrow> sys \<Rightarrow> bool" where
  "close_inv a f s =
     (appender s = a \<and> loopSelf s = a \<and> file a = Some f \<and> f < length (files (os s)) \<and>
      (case closer s of
         CReady \<Rightarrow> True
       | CWaiting self \<Rightarrow> self = a
       | CDrained self \<Rightarrow> self = a
       | CReturned r \<Rightarrow> closed (files (os s) ! f)))"

text \<open>
  The system \<open>fresh_sys\<close> after \<^verbatim>\<open>Close\<close> has returned, and then with one record that a
  later \<^verbatim>\<open>Append\<close> has put in the queue.
\<close>

definition closed_sys :: sys where
  "closed_sys =
     fresh_sys\<lparr>os := stat_world\<lparr>files := [\<lparr>inode = 0, closed = True, pos = 0, appendMode = True\<rparr>],
                                  trace := [(CallOpenAppend ''/log'', None),
                                            (CallStat (Some 0), None),
                                            (CallClose (Some 0), None)]\<rparr>,
                closer := CReturned None\<rparr>"

definition closed_sys_queued :: sys where
  "closed_sys_queued =
     closed_sys\<lparr>appendCh := [demo_record ''A''], sentLog := [(0, demo_record ''A'')],
                 producers := [(0, PReturned None)]\<rparr>"

definition closed_sys_dropped :: sys where
  "closed_sys_dropped =
     closed_sys_queued
       \<lparr>os := (os closed_sys)\<lparr>trace := trace (os closed_sys) @
                                         [(CallWrite (Some 0) ''A'', Some ErrClosed)],
                               sink := [WriteError ''/log'' ErrClosed]\<rparr>,
        appendCh := [], needsSync := True\<rparr>"

text \<open>
  Worlds for the runs below: one where the log file exists with two bytes, one where
  the fifth call (the rename of the first rotation after \<^verbatim>\<open>New\<close>) fails, and one where
  the sixth (the reopening) fails too.
\<close>

definition old_world :: world where
  "old_world =
     \<lparr>files = [], inodes = [''XX''], dir = [(''/log'', 0)], faults = [], trace = [], sink = []\<rparr>"

definition rename_fails_world :: world where
  "rename_fails_world = empty_world\<lparr>faults := [None, None, None, None, Some (ErrInjected 1)]\<rparr>"

definition reopen_fails_world :: world where
  "reopen_fails_world =
     empty_world\<lparr>faults := [None, None, None, None, Some (ErrInjected 1), Some (ErrInjected 2)]\<rparr>"

section \<open>Properties\<close>

declare reallyAppend.simps [simp del] rotate.simps [simp del] logHeader.simps [simp del]

lemmas os_defs =
  next_fault_def logcall_def open_file_def content_def handle_err_def new_file_def write_at_def
  os_OpenFile_append_def file_Stat_def file_WriteString_def file_Sync_def file_Close_def
  os_Rename_def os_OpenFile_rdwr_def os_Create_def errHandler_def

subsection \<open>What each call leaves in the trace and in the sink\<close>

lemma trace_errHandler [simp]: "trace (errHandler e w) = trace w"
  by (simp add: errHandler_def)

lemma sink_errHandler [simp]: "sink (errHandler e w) = sink w @ [e]"
  by (simp add: errHandler_def)

lemma next_fault_fields:
  "next_fault w = (flt, w1) \<Longrightarrow>
     trace w1 = trace w \<and> sink w1 = sink w \<and> files w1 = files w \<and>
     inodes w1 = inodes w \<and> dir w1 = dir w"
  by (auto simp: next_fault_def split: list.splits)

lemma file_WriteString_trace:
  "file_WriteString fp msg w = ((n, r), w') \<Longrightarrow>
     trace w' = trace w @ [(CallWrite fp msg, r)] \<and> sink w' = sink w"
  by (auto simp: file_WriteString_def logcall_def Let_def dest!: next_fault_fields
      split: prod.splits option.splits)

lemma reallyAppend_untracked:
  "reallyAppend E self log False w =
     (self,
      case file self of
        None \<Rightarrow> errHandler NoFileError w
      | Some f \<Rightarrow>
          (case file_WriteString (Some f) (FormatLog E log) w of
             ((n, Some e), w1) \<Rightarrow> errHandler (WriteError (absPath self) e) w1
           | ((n, None), w1) \<Rightarrow> w1))"
  by (simp add: reallyAppend.simps split: option.splits prod.splits)

lemma reallyAppend_untracked_trace:
  "\<exists>r. trace (snd (reallyAppend E self log False w)) =
        trace w @ (case file self of
                     None \<Rightarrow> []
                   | Some f \<Rightarrow> [(CallWrite (Some f) (FormatLog E log), r)])"
  by (auto simp: reallyAppend_untracked split: option.splits prod.splits
      dest!: file_WriteString_trace)

lemma demo_rotated_name: "newRotatedFilename demo_env ''/log'' = ''/log.2012-03-04T05-06-07''"
  by (simp add: newRotatedFilename_def demo_env_def decimal02_def decimal.simps digit_def)

subsection \<open>Writing without a file\<close>

text \<open>
  Claim C8 (null-handle fast-fail). A write with a nil file handle calls nothing of the
  operating system: the world changes in one place only, the error callback has been
  called once more, with \<open>NoFileError\<close>. The receiver, and with it the size counter, is
  as before. In the loop the record is taken from the queue and not put back.
\<close>

theorem null_handle_fast_fail:
  assumes "file self = None"
  shows "reallyAppend E self log trackSize w = (self, w\<lparr>sink := sink w @ [NoFileError]\<rparr>) \<and>
         (\<forall>s rest. loopSelf s = self \<and> os s = w \<and> appendCh s = log # rest \<longrightarrow>
            listenForAppends E s =
              Some (s\<lparr>appendCh := rest, os := w\<lparr>sink := sink w @ [NoFileError]\<rparr>,
                      needsSync := True\<rparr>))"
proof -
  have a: "reallyAppend E self log t w = (self, w\<lparr>sink := sink w @ [NoFileError]\<rparr>)" for t
    using assms by (simp add: reallyAppend.simps errHandler_def)
  show ?thesis
    by (auto simp: a listenForAppends_def)
qed

theorem null_handle_fast_fail_witness:
  "file nil_appender = None \<and>
   loopSelf nil_sys = nil_appender \<and> os nil_sys = empty_world \<and>
   appendCh nil_sys = demo_record ''A'' # [] \<and>
   reallyAppend demo_env nil_appender (demo_record ''A'') False empty_world =
     (nil_appender, empty_world\<lparr>sink := [NoFileError]\<rparr>) \<and>
   listenForAppends demo_env nil_sys =
     Some (nil_sys\<lparr>appendCh := [], os := empty_world\<lparr>sink := [NoFileError]\<rparr>, needsSync := True\<rparr>)"
proof -
  have h: "file nil_appender = None"
    by (simp add: nil_appender_def)
  have s: "loopSelf nil_sys = nil_appender \<and> os nil_sys = empty_world \<and>
           appendCh nil_sys = demo_record ''A'' # []"
    by (simp add: nil_sys_def)
  have e: "sink empty_world = []"
    by (simp add: empty_world_def)
  from null_handle_fast_fail [OF h, of demo_env "demo_record ''A''" False empty_world] h s e
  show ?thesis by simp
qed

subsection \<open>The header\<close>

text \<open>
  Claim C4 (header handling). With a header generator, \<^verbatim>\<open>logHeader\<close> is a call of
  \<^verbatim>\<open>reallyAppend\<close> on the header record with size tracking off. Such a write, whatever
  the record and the sizes, returns with the receiver it was given (the size counter
  included), and the only call it makes is one \<^verbatim>\<open>WriteString\<close> on the receiver's file:
  nothing of a rotation. \<^verbatim>\<open>New\<close> writes the header that way into the file it has
  opened, and its size counter is the size that \<^verbatim>\<open>Stat\<close> gave before. A rotation whose
  rename and create succeed writes the header that way into the file just created.
\<close>

theorem header_handling:
  "(headerGenerator self = Some h \<longrightarrow>
      logHeader E self w = (self, snd (reallyAppend E self (header_log E h) False w))) \<and>
   fst (reallyAppend E self log False w) = self \<and>
   (\<exists>r. trace (snd (reallyAppend E self log False w)) =
      trace w @ (case file self of
                   None \<Rightarrow> []
                 | Some f \<Rightarrow> [(CallWrite (Some f) (FormatLog E log), r)])) \<and>
   (filepath_Abs E filename = Inr p \<and> os_OpenFile_append p wn = (Inr f, w1) \<and>
    file_Stat (Some f) w1 = (Inr n, w2) \<longrightarrow>
      (\<exists>s. New E filename maxFileSize (Some h) wn = Inr s \<and>
           os s = snd (reallyAppend E (appender s) (header_log E h) False w2) \<and>
           loopSelf s = appender s \<and> file (appender s) = Some f \<and>
           curFileSize (appender s) = of_nat n)) \<and>
   (headerGenerator self = Some h \<and> file_Close (file self) wr = (cerr, w3) \<and>
    renameLogFile self (absPath self) (newRotatedFilename E (absPath self))
      (case cerr of
         Some e \<Rightarrow> errHandler (CloseError (absPath self) e) w3
       | None \<Rightarrow> w3) = (self', True, w4) \<and>
    os_Create (absPath self) w4 = (Inr f', w5) \<longrightarrow>
      rotate E self wr =
        (self\<lparr>file := Some f'\<rparr>,
         snd (reallyAppend E (self\<lparr>file := Some f'\<rparr>) (header_log E h) False w5)))"
proof -
  have a: "headerGenerator self = Some h \<longrightarrow>
      logHeader E self w = (self, snd (reallyAppend E self (header_log E h) False w))"
    by (simp add: logHeader.simps header_log_def)
  have b: "fst (reallyAppend E self log False w) = self"
    by (simp add: reallyAppend_untracked)
  note c = reallyAppend_untracked_trace [of E self log w]
  have d: "filepath_Abs E filename = Inr p \<and> os_OpenFile_append p wn = (Inr f, w1) \<and>
    file_Stat (Some f) w1 = (Inr n, w2) \<longrightarrow>
      (\<exists>s. New E filename maxFileSize (Some h) wn = Inr s \<and>
           os s = snd (reallyAppend E (appender s) (header_log E h) False w2) \<and>
           loopSelf s = appender s \<and> file (appender s) = Some f \<and>
           curFileSize (appender s) = of_nat n)"
    by (simp add: New_def logHeader.simps header_log_def Let_def)
  have e: "headerGenerator self = Some h \<and> file_Close (file self) wr = (cerr, w3) \<and>
    renameLogFile self (absPath self) (newRotatedFilename E (absPath self))
      (case cerr of
         Some e \<Rightarrow> errHandler (CloseError (absPath self) e) w3
       | None \<Rightarrow> w3) = (self', True, w4) \<and>
    os_Create (absPath self) w4 = (Inr f', w5) \<longrightarrow>
      rotate E self wr =
        (self\<lparr>file := Some f'\<rparr>,
         snd (reallyAppend E (self\<lparr>file := Some f'\<rparr>) (header_log E h) False w5))"
    by (auto simp: rotate.simps logHeader.simps header_log_def)
  from a b c d e show ?thesis by blast
qed

theorem header_handling_witness:
  "headerGenerator hdr_appender = Some ''HEADER'' \<and>
   filepath_Abs demo_env ''/log'' = Inr ''/log'' \<and>
   os_OpenFile_append ''/log'' empty_world = (Inr 0, opened_world) \<and>
   file_Stat (Some 0) opened_world = (Inr 0, stat_world) \<and>
   file_Close (file hdr_appender) live_world = (None, closed_world) \<and>
   renameLogFile hdr_appender (absPath hdr_appender)
     (newRotatedFilename demo_env (absPath hdr_appender)) closed_world =
     (hdr_appender\<lparr>curFileSize := 0\<rparr>, True, renamed_world) \<and>
   os_Create (absPath hdr_appender) renamed_world = (Inr 1, created_world) \<and>
   logHeader demo_env hdr_appender live_world =
     (hdr_appender,
      snd (reallyAppend demo_env hdr_appender (header_log demo_env ''HEADER'') False live_world)) \<and>
   fst (reallyAppend demo_env hdr_appender (header_log demo_env ''HEADER'') False live_world) =
     hdr_appender \<and>
   (\<exists>s. New demo_env ''/log'' 3 (Some ''HEADER'') empty_world = Inr s \<and>
        os s = snd (reallyAppend demo_env (appender s) (header_log demo_env ''HEADER'') False
                      stat_world) \<and>
        curFileSize (appender s) = 0) \<and>
   rotate demo_env hdr_appender live_world =
     (hdr_appender\<lparr>file := Some 1\<rparr>,
      snd (reallyAppend demo_env (hdr_appender\<lparr>file := Some 1\<rparr>)
             (header_log demo_env ''HEADER'') False created_world)) \<and>
   inodes (snd (rotate demo_env hdr_appender live_world)) = [''HEADERAAAAA'', ''HEADER'']"
proof -
  have h0: "headerGenerator hdr_appender = Some ''HEADER''"
    by (simp add: hdr_appender_def)
  have h1: "filepath_Abs demo_env ''/log'' = Inr ''/log''"
    by (simp add: demo_env_def)
  have h2: "os_OpenFile_append ''/log'' empty_world = (Inr 0, opened_world)"
    by (simp add: os_defs empty_world_def opened_world_def)
  have h3: "file_Stat (Some 0) opened_world = (Inr 0, stat_world)"
    by (simp add: os_defs stat_world_def opened_world_def)
  have h4: "file_Close (file hdr_appender) live_world = (None, closed_world)"
    by (simp add: os_defs hdr_appender_def live_world_def closed_world_def)
  have h5: "renameLogFile hdr_appender (absPath hdr_appender)
     (newRotatedFilename demo_env (absPath hdr_appender)) closed_world =
     (hdr_appender\<lparr>curFileSize := 0\<rparr>, True, renamed_world)"
    by (simp add: hdr_appender_def demo_rotated_name renameLogFile_def os_defs closed_world_def
        renamed_world_def)
  have h6: "os_Create (absPath hdr_appender) renamed_world = (Inr 1, created_world)"
    by (simp add: os_defs hdr_appender_def renamed_world_def created_world_def)
  have c: "inodes (snd (reallyAppend demo_env (hdr_appender\<lparr>file := Some 1\<rparr>)
             (header_log demo_env ''HEADER'') False created_world)) = [''HEADERAAAAA'', ''HEADER'']"
    by (simp add: reallyAppend_untracked os_defs hdr_appender_def created_world_def
        header_log_def simpleLog_def demo_env_def)
  note t = header_handling [where self = hdr_appender and h = "''HEADER''" and E = demo_env and
      w = live_world and log = "header_log demo_env ''HEADER''" and filename = "''/log''" and
      p = "''/log''" and wn = empty_world and f = 0 and ?w1.0 = opened_world and n = 0 and
      ?w2.0 = stat_world and maxFileSize = 3 and wr = live_world and cerr = None and
      ?w3.0 = closed_world and self' = "hdr_appender\<lparr>curFileSize := 0\<rparr>" and
      ?w4.0 = renamed_world and f' = 1 and ?w5.0 = created_world]
  from t h0 h1 h2 h3 h4 h5 h6 c show ?thesis
    by auto
qed

subsection \<open>Errors go to the callback\<close>

lemma delivered_refl: "delivered p w w"
  by (simp add: delivered_def)

lemma delivered_trans: "delivered p w w1 \<Longrightarrow> delivered p w1 w2 \<Longrightarrow> delivered p w w2"
  unfolding delivered_def
proof -
  assume "\<exists>evs. trace w1 = trace w @ evs \<and> sink w1 = sink w @ concat (map (report p) evs)"
    and "\<exists>evs. trace w2 = trace w1 @ evs \<and> sink w2 = sink w1 @ concat (map (report p) evs)"
  then obtain e1 e2 where
    "trace w1 = trace w @ e1" "sink w1 = sink w @ concat (map (report p) e1)"
    "trace w2 = trace w1 @ e2" "sink w2 = sink w1 @ concat (map (report p) e2)"
    by blast
  then have "trace w2 = trace w @ (e1 @ e2) \<and> sink w2 = sink w @ concat (map (report p) (e1 @ e2))"
    by simp
  then show "\<exists>evs. trace w2 = trace w @ evs \<and> sink w2 = sink w @ concat (map (report p) evs)"
    by blast
qed

lemma delivered_one:
  "trace w' = trace w @ [ev] \<Longrightarrow> sink w' = sink w @ report p ev \<Longrightarrow> delivered p w w'"
  unfolding delivered_def by (rule exI [of _ "[ev]"]) simp

lemma file_Close_trace:
  "file_Close fp w = (r, w') \<Longrightarrow> trace w' = trace w @ [(CallClose fp, r)] \<and> sink w' = sink w"
  by (auto simp: file_Close_def logcall_def Let_def dest!: next_fault_fields
      split: prod.splits option.splits)

lemma os_Rename_trace:
  "os_Rename a b w = (r, w') \<Longrightarrow> trace w' = trace w @ [(CallRename a b, r)] \<and> sink w' = sink w"
  by (auto simp: os_Rename_def logcall_def dest!: next_fault_fields
      split: prod.splits option.splits)

lemma os_OpenFile_rdwr_trace:
  "os_OpenFile_rdwr a w = (r, w') \<Longrightarrow>
     trace w' = trace w @ [(CallOpenRDWR a, case r of Inl e \<Rightarrow> Some e | Inr f \<Rightarrow> None)] \<and>
     sink w' = sink w"
  by (auto simp: os_OpenFile_rdwr_def logcall_def new_file_def dest!: next_fault_fields
      split: prod.splits option.splits)

lemma os_Create_trace:
  "os_Create a w = (r, w') \<Longrightarrow>
     trace w' = trace w @ [(CallCreate a, case r of Inl e \<Rightarrow> Some e | Inr f \<Rightarrow> None)] \<and>
     sink w' = sink w"
  by (auto simp: os_Create_def logcall_def new_file_def dest!: next_fault_fields
      split: prod.splits option.splits)

lemma write_delivered:
  assumes "file_WriteString fp msg w = ((n, r), w1)"
  shows "delivered p w (case r of Some e \<Rightarrow> errHandler (WriteError p e) w1 | None \<Rightarrow> w1)"
  using file_WriteString_trace [OF assms]
  by (intro delivered_one [where ev = "(CallWrite fp msg, r)"]) (auto split: option.splits)

lemma close_delivered:
  assumes "file_Close fp w = (r, w1)"
  shows "delivered p w (case r of Some e \<Rightarrow> errHandler (CloseError p e) w1 | None \<Rightarrow> w1)"
  using file_Close_trace [OF assms]
  by (intro delivered_one [where ev = "(CallClose fp, r)"]) (auto split: option.splits)

lemma rename_delivered:
  assumes "os_Rename a b w = (r, w1)"
  shows "delivered p w (case r of Some e \<Rightarrow> errHandler (RenameError a b e) w1 | None \<Rightarrow> w1)"
  using os_Rename_trace [OF assms]
  by (intro delivered_one [where ev = "(CallRename a b, r)"]) (auto split: option.splits)

lemma reopen_delivered:
  assumes "os_OpenFile_rdwr a w = (r, w1)"
  shows "delivered p w (case r of Inl e \<Rightarrow> errHandler (OpenError a e) w1 | Inr f \<Rightarrow> w1)"
  using os_OpenFile_rdwr_trace [OF assms]
  by (intro delivered_one [where ev = "(CallOpenRDWR a, case r of Inl e \<Rightarrow> Some e | Inr f \<Rightarrow> None)"])
     (auto split: sum.splits)

lemma create_delivered:
  assumes "os_Create a w = (r, w1)"
  shows "delivered p w (case r of Inl e \<Rightarrow> errHandler (OpenError a e) w1 | Inr f \<Rightarrow> w1)"
  using os_Create_trace [OF assms]
  by (intro delivered_one [where ev = "(CallCreate a, case r of Inl e \<Rightarrow> Some e | Inr f \<Rightarrow> None)"])
     (auto split: sum.splits)

lemma renameLogFile_delivered:
  "delivered p w (snd (snd (renameLogFile self a b w)))"
proof -
  obtain r w1 where r: "os_Rename a b w = (r, w1)" by (cases "os_Rename a b w")
  note d1 = rename_delivered [OF r, of p]
  show ?thesis
  proof (cases r)
    case None
    with r d1 show ?thesis by (simp add: renameLogFile_def)
  next
    case (Some e)
    obtain r2 w2 where o: "os_OpenFile_rdwr a (errHandler (RenameError a b e) w1) = (r2, w2)"
      by (cases "os_OpenFile_rdwr a (errHandler (RenameError a b e) w1)")
    note d2 = reopen_delivered [OF o, of p]
    from Some r o have "snd (snd (renameLogFile self a b w)) =
        (case r2 of Inl e \<Rightarrow> errHandler (OpenError a e) w2 | Inr f \<Rightarrow> w2)"
      by (simp add: renameLogFile_def split: sum.splits)
    with d1 d2 Some show ?thesis
      by (auto intro: delivered_trans)
  qed
qed

lemma untracked_delivered:
  "file self = Some f \<Longrightarrow> delivered (absPath self) w (snd (reallyAppend E self log False w))"
proof -
  assume f: "file self = Some f"
  obtain n r w1 where wr: "file_WriteString (Some f) (FormatLog E log) w = ((n, r), w1)"
    by (metis surj_pair)
  from write_delivered [OF wr, of "absPath self"] f wr show ?thesis
    by (simp add: reallyAppend_untracked split: option.splits)
qed

lemma logHeader_delivered:
  "file self = Some f \<Longrightarrow> delivered (absPath self) w (snd (logHeader E self w))"
  by (cases "headerGenerator self") (auto simp: logHeader.simps delivered_refl untracked_delivered)

lemma rotate_delivered:
  "delivered (absPath self) w (snd (rotate E self w))"
proof -
  let ?p = "absPath self"
  obtain cerr w1 where c: "file_Close (file self) w = (cerr, w1)" by (cases "file_Close (file self) w")
  define wc where "wc = (case cerr of Some e \<Rightarrow> errHandler (CloseError ?p e) w1 | None \<Rightarrow> w1)"
  have d1: "delivered ?p w wc" unfolding wc_def by (rule close_delivered [OF c])
  obtain self' ok w2 where rn: "renameLogFile self ?p (newRotatedFilename E ?p) wc = (self', ok, w2)"
    by (metis surj_pair)
  have d2: "delivered ?p wc w2" using renameLogFile_delivered [of ?p wc self ?p "newRotatedFilename E ?p"] rn by simp
  show ?thesis
  proof (cases ok)
    case False
    with c rn wc_def have "snd (rotate E self w) = w2" by (simp add: rotate.simps)
    with d1 d2 show ?thesis by (auto intro: delivered_trans)
  next
    case True
    obtain r w3 where cr: "os_Create ?p w2 = (r, w3)" by (cases "os_Create ?p w2")
    note d3 = create_delivered [OF cr, of ?p]
    show ?thesis
    proof (cases r)
      case (Inl e)
      with True c rn wc_def cr have "snd (rotate E self w) = errHandler (OpenError ?p e) w3"
        by (simp add: rotate.simps)
      with d1 d2 d3 Inl show ?thesis by (auto intro: delivered_trans)
    next
      case (Inr f)
      with True c rn wc_def cr have "snd (rotate E self w) = snd (logHeader E (self\<lparr>file := Some f\<rparr>) w3)"
        by (simp add: rotate.simps)
      moreover have "delivered ?p w3 (snd (logHeader E (self\<lparr>file := Some f\<rparr>) w3))"
        using logHeader_delivered [of "self\<lparr>file := Some f\<rparr>" f w3 E] by simp
      ultimately show ?thesis using d1 d2 d3 Inr by (auto intro: delivered_trans)
    qed
  qed
qed

lemma reallyAppend_delivered:
  "file self = Some f \<Longrightarrow> delivered (absPath self) w (snd (reallyAppend E self log t w))"
proof -
  assume f: "file self = Some f"
  let ?p = "absPath self"
  obtain n r w1 where wr: "file_WriteString (Some f) (FormatLog E log) w = ((n, r), w1)"
    by (metis surj_pair)
  note d1 = write_delivered [OF wr, of ?p]
  show ?thesis
  proof (cases r)
    case (Some e)
    with f wr d1 show ?thesis by (simp add: reallyAppend.simps)
  next
    case None
    show ?thesis
    proof (cases "t \<and> curFileSize self + of_nat n > MaxFileSize self")
      case False
      with None f wr d1 show ?thesis by (auto simp: reallyAppend.simps)
    next
      case True
      with None f wr have "snd (reallyAppend E self log t w) =
          snd (rotate E (self\<lparr>curFileSize := curFileSize self + of_nat n\<rparr>) w1)"
        by (simp add: reallyAppend.simps)
      moreover have "delivered ?p w1 (snd (rotate E (self\<lparr>curFileSize := curFileSize self + of_nat n\<rparr>) w1))"
        using rotate_delivered [of "self\<lparr>curFileSize := curFileSize self + of_nat n\<rparr>" w1 E] by simp
      ultimately show ?thesis using d1 None by (auto intro: delivered_trans)
    qed
  qed
qed


lemmas sys_defs =
  producer_def set_producer_def chan_send_def APPEND_CHANNEL_SIZE_def Append_select_def
  Append_warning_def Append_record_def listenForAppends_def Close_call_def waitUntilEmpty_def
  Close_file_def

lemma producer_set_producer [simp]: "producer (set_producer p st s) p = st"
  by (simp add: producer_def set_producer_def update_conv')

lemma os_set_producer [simp]: "os (set_producer p st s) = os s"
  by (simp add: set_producer_def)

lemma chan_send_os: "chan_send p log s = Some s1 \<Longrightarrow> os s1 = os s"
  by (auto simp: chan_send_def split: if_splits)

lemma loop_goes_on: "needsSync s \<Longrightarrow> \<exists>s'. listenForAppends E s = Some s'"
  by (simp add: listenForAppends_def split: list.splits)

lemma loop_takes_record:
  assumes "appendCh s = log # rest"
  shows "listenForAppends E s =
           Some (s\<lparr>appendCh := rest, os := snd (reallyAppend E (loopSelf s) log True (os s)),
                   needsSync := True\<rparr>)"
  using assms by (simp add: listenForAppends_def)

text \<open>
  Claim C9 (asynchronous error delivery). No step of \<^verbatim>\<open>Append\<close> touches the world or
  sees an error: the call returns nil or goes on to its next send, and its last step
  returns nil. A turn of the loop that takes a record always completes, keeps the
  receiver, leaves the record out of the queue, and leaves the loop able to take its
  next turn; with a nil file the callback has
  received \<open>NoFileError\<close> and nothing was called, otherwise it has received, for every
  failed write, close, rename, open and create, the error with the paths and the cause.
\<close>

theorem asynchronous_error_delivery:
  "(Append_select p log s = Some s1 \<longrightarrow>
      os s1 = os s \<and> (producer s1 p = PReturned None \<or> producer s1 p = PWarn log)) \<and>
   (Append_warning E p sw = Some s2 \<longrightarrow> os s2 = os sw \<and> (\<exists>l. producer s2 p = PRecord l)) \<and>
   (Append_record p sr = Some s3 \<longrightarrow> os s3 = os sr \<and> producer s3 p = PReturned None) \<and>
   (appendCh sl = log # rest \<longrightarrow>
      (\<exists>s'. listenForAppends E sl = Some s' \<and> appendCh s' = rest \<and> loopSelf s' = loopSelf sl \<and>
            needsSync s' \<and> listenForAppends E s' \<noteq> None \<and>
            (case file (loopSelf sl) of
               None \<Rightarrow> trace (os s') = trace (os sl) \<and> sink (os s') = sink (os sl) @ [NoFileError]
             | Some f \<Rightarrow> delivered (absPath (loopSelf sl)) (os sl) (os s'))))"
proof -
  have a: "Append_select p log s = Some s1 \<longrightarrow>
      os s1 = os s \<and> (producer s1 p = PReturned None \<or> producer s1 p = PWarn log)"
    by (auto simp: Append_select_def split: pstate.splits option.splits dest: chan_send_os)
  have b: "Append_warning E p sw = Some s2 \<longrightarrow> os s2 = os sw \<and> (\<exists>l. producer s2 p = PRecord l)"
    by (auto simp: Append_warning_def split: pstate.splits option.splits dest: chan_send_os)
  have c: "Append_record p sr = Some s3 \<longrightarrow> os s3 = os sr \<and> producer s3 p = PReturned None"
    by (auto simp: Append_record_def split: pstate.splits option.splits dest: chan_send_os)
  have d: "appendCh sl = log # rest \<longrightarrow>
      (\<exists>s'. listenForAppends E sl = Some s' \<and> appendCh s' = rest \<and> loopSelf s' = loopSelf sl \<and>
            needsSync s' \<and> listenForAppends E s' \<noteq> None \<and>
            (case file (loopSelf sl) of
               None \<Rightarrow> trace (os s') = trace (os sl) \<and> sink (os s') = sink (os sl) @ [NoFileError]
             | Some f \<Rightarrow> delivered (absPath (loopSelf sl)) (os sl) (os s')))"
  proof
    assume q: "appendCh sl = log # rest"
    show "\<exists>s'. listenForAppends E sl = Some s' \<and> appendCh s' = rest \<and> loopSelf s' = loopSelf sl \<and>
            needsSync s' \<and> listenForAppends E s' \<noteq> None \<and>
            (case file (loopSelf sl) of
               None \<Rightarrow> trace (os s') = trace (os sl) \<and> sink (os s') = sink (os sl) @ [NoFileError]
             | Some f \<Rightarrow> delivered (absPath (loopSelf sl)) (os sl) (os s'))"
    proof (cases "file (loopSelf sl)")
      case None
      then have "reallyAppend E (loopSelf sl) log True (os sl) = (loopSelf sl, errHandler NoFileError (os sl))"
        by (simp add: reallyAppend.simps)
      with None show ?thesis
        by (simp add: loop_takes_record [OF q] loop_goes_on)
    next
      case (Some f)
      with reallyAppend_delivered [OF Some, of "os sl" E log True] show ?thesis
        by (simp add: loop_takes_record [OF q] loop_goes_on)
    qed
  qed
  from a b c d show ?thesis by blast
qed


theorem asynchronous_error_delivery_witness:
  "(\<exists>s1. Append_select 0 (demo_record ''C'') failing_sys = Some s1 \<and> os s1 = os failing_sys \<and>
         producer s1 0 = PReturned None) \<and>
   (\<exists>s2. Append_warning demo_env 0 (set_producer 0 (PWarn (demo_record ''C'')) failing_sys) = Some s2 \<and>
         os s2 = os failing_sys \<and> (\<exists>l. producer s2 0 = PRecord l)) \<and>
   (\<exists>s3. Append_record 0 (set_producer 0 (PRecord (demo_record ''C'')) failing_sys) = Some s3 \<and>
         os s3 = os failing_sys \<and> producer s3 0 = PReturned None) \<and>
   appendCh failing_sys = demo_record ''B'' # [] \<and>
   (\<exists>s'. listenForAppends demo_env failing_sys = Some s' \<and> appendCh s' = [] \<and>
         sink (os s') = [WriteError ''/log'' (ErrInjected 7)] \<and>
         delivered ''/log'' (os failing_sys) (os s'))"
proof -
  obtain s1 where s1: "Append_select 0 (demo_record ''C'') failing_sys = Some s1"
    and r1: "producer s1 0 = PReturned None"
    by (simp add: sys_defs failing_sys_def)
  obtain s2 where
    s2: "Append_warning demo_env 0 (set_producer 0 (PWarn (demo_record ''C'')) failing_sys) = Some s2"
    by (simp add: sys_defs failing_sys_def)
  obtain s3 where
    s3: "Append_record 0 (set_producer 0 (PRecord (demo_record ''C'')) failing_sys) = Some s3"
    by (simp add: sys_defs failing_sys_def)
  have q: "appendCh failing_sys = demo_record ''B'' # []"
    by (simp add: failing_sys_def)
  have f: "file (loopSelf failing_sys) = Some 0" "absPath (loopSelf failing_sys) = ''/log''"
    by (simp_all add: failing_sys_def hdr_appender_def)
  have k: "sink (snd (reallyAppend demo_env (loopSelf failing_sys) (demo_record ''B'') True
             (os failing_sys))) = [WriteError ''/log'' (ErrInjected 7)]"
    by (simp add: reallyAppend.simps failing_sys_def hdr_appender_def live_world_def os_defs)
  note t = asynchronous_error_delivery [where p = 0 and log = "demo_record ''B''" and
      s = failing_sys and E = demo_env and
      sw = "set_producer 0 (PWarn (demo_record ''C'')) failing_sys" and ?s2.0 = s2 and
      sr = "set_producer 0 (PRecord (demo_record ''C'')) failing_sys" and ?s3.0 = s3 and
      sl = failing_sys and rest = "[]"]
  note u = asynchronous_error_delivery [where p = 0 and log = "demo_record ''C''" and
      s = failing_sys and ?s1.0 = s1]
  from u s1 r1 have c1: "\<exists>s1. Append_select 0 (demo_record ''C'') failing_sys = Some s1 \<and>
      os s1 = os failing_sys \<and> producer s1 0 = PReturned None"
    by blast
  from t s2 have c2: "\<exists>s2. Append_warning demo_env 0
      (set_producer 0 (PWarn (demo_record ''C'')) failing_sys) = Some s2 \<and>
      os s2 = os failing_sys \<and> (\<exists>l. producer s2 0 = PRecord l)"
    by simp
  from t s3 have c3: "\<exists>s3. Append_record 0
      (set_producer 0 (PRecord (demo_record ''C'')) failing_sys) = Some s3 \<and>
      os s3 = os failing_sys \<and> producer s3 0 = PReturned None"
    by simp
  from t q f k have c4: "\<exists>s'. listenForAppends demo_env failing_sys = Some s' \<and> appendCh s' = [] \<and>
      sink (os s') = [WriteError ''/log'' (ErrInjected 7)] \<and>
      delivered ''/log'' (os failing_sys) (os s')"
    by (auto simp: loop_takes_record [OF q])
  from c1 c2 c3 q c4 show ?thesis by blast
qed

subsection \<open>Value receivers\<close>

lemmas demo_defs =
  demo_env_def demo_record_def simpleLog_def empty_world_def stat_world_def plain_appender_def
  fresh_sys_def newRotatedFilename_def decimal02_def decimal.simps digit_def

lemmas appender_defs =
  reallyAppend.simps rotate.simps logHeader.simps renameLogFile_def

lemma New_fresh_sys: "New demo_env ''/log'' 3 None empty_world = Inr fresh_sys"
  by (simp add: New_def Let_def demo_defs os_defs logHeader.simps)

lemma step_keeps_struct:
  "step E ev s = Some s' \<Longrightarrow> loopSelf s' = loopSelf s \<and> appender s' = appender s"
  by (cases ev)
     (auto simp: sys_defs split: pstate.splits option.splits if_splits list.splits cstate.splits
        prod.splits)

text \<open>
  Claim C10 (value receivers). Whatever the threads do, in whatever order, the struct
  that \<^verbatim>\<open>New\<close> returned and the copy of it that the loop holds stay as they were: the
  file handle and the size counter, like every other field. The assignments made in
  \<^verbatim>\<open>reallyAppend\<close>, \<^verbatim>\<open>renameLogFile\<close> and \<^verbatim>\<open>rotate\<close> are made to the receiver of that one
  call.
\<close>

theorem value_receivers_keep_struct:
  "run E evs s = Some s' \<Longrightarrow> loopSelf s' = loopSelf s \<and> appender s' = appender s"
proof (induction evs arbitrary: s)
  case Nil
  then show ?case by simp
next
  case (Cons ev evs)
  then obtain s1 where 1: "step E ev s = Some s1" and 2: "run E evs s1 = Some s'"
    by (auto split: option.splits)
  from Cons.IH [OF 2] step_keeps_struct [OF 1] show ?case by simp
qed

text \<open>
  At the concrete input the write of five bytes passes the limit of three and the file
  is rotated: the receiver of \<^verbatim>\<open>reallyAppend\<close> ends with a counter of 5, the loop's copy
  has 0 and the handle of the file that the rotation has closed.
\<close>

theorem value_receivers_keep_struct_witness:
  "New demo_env ''/log'' 3 None empty_world = Inr fresh_sys \<and>
   (\<exists>s'. run demo_env [EvAppend 0 (demo_record ''AAAAA''), EvLoop] fresh_sys = Some s' \<and>
         loopSelf s' = loopSelf fresh_sys \<and> appender s' = appender fresh_sys \<and>
         curFileSize (loopSelf s') = 0 \<and> file (loopSelf s') = Some 0 \<and>
         map closed (files (os s')) = [True, False]) \<and>
   curFileSize (fst (reallyAppend demo_env plain_appender (demo_record ''AAAAA'') True stat_world)) = 5"
proof -
  have r: "map_option (\<lambda>s. map closed (files (os s)))
             (run demo_env [EvAppend 0 (demo_record ''AAAAA''), EvLoop] fresh_sys) =
           Some [True, False]"
    by (simp add: sys_defs demo_defs appender_defs os_defs)
  then obtain s' where
    s: "run demo_env [EvAppend 0 (demo_record ''AAAAA''), EvLoop] fresh_sys = Some s'" and
    c: "map closed (files (os s')) = [True, False]"
    by auto
  have l: "curFileSize (loopSelf fresh_sys) = 0" "file (loopSelf fresh_sys) = Some 0"
    by (simp_all add: fresh_sys_def plain_appender_def)
  have k: "curFileSize (fst (reallyAppend demo_env plain_appender (demo_record ''AAAAA'') True
             stat_world)) = 5"
    by (simp add: demo_defs appender_defs os_defs)
  from value_receivers_keep_struct [OF s] s c l k New_fresh_sys show ?thesis
    by simp
qed

subsection \<open>Append on a full queue\<close>

lemma producer_other [simp]: "q \<noteq> p \<Longrightarrow> producer (set_producer q st s) p = producer s p"
  by (simp add: producer_def set_producer_def update_conv')

lemma sent_by_set_producer [simp]: "sent_by p (set_producer q st s) = sent_by p s"
  by (simp add: sent_by_def set_producer_def)

lemma chan_send_sent_by:
  "chan_send q l s = Some s1 \<Longrightarrow>
     sent_by p s1 = sent_by p s @ (if q = p then [l] else []) \<and> producers s1 = producers s \<and>
     appendCh s1 = appendCh s @ [l] \<and> length (appendCh s) < APPEND_CHANNEL_SIZE"
  by (auto simp: chan_send_def sent_by_def split: if_splits)

lemma producer_cong: "producers s1 = producers s \<Longrightarrow> producer s1 p = producer s p"
  by (simp add: producer_def)

lemma step_of_other:
  assumes "step E ev s = Some s'" and "\<not> is_call_of p ev"
  shows "(producer s' p = producer s p \<and> sent_by p s' = sent_by p s) \<or>
         (\<exists>log. producer s p = PWarn log \<and> producer s' p = PRecord log \<and>
                sent_by p s' = sent_by p s @ [fullWarningLog E]) \<or>
         (\<exists>log. producer s p = PRecord log \<and> producer s' p = PReturned None \<and>
                sent_by p s' = sent_by p s @ [log])"
proof (cases ev)
  case (EvAppend q l)
  with assms have "q \<noteq> p" by simp
  with assms EvAppend show ?thesis
    by (auto simp: Append_select_def split: pstate.splits option.splits
        dest!: chan_send_sent_by [where p = p] dest: producer_cong)
next
  case (EvWarning q)
  with assms show ?thesis
    by (cases "q = p")
       (auto simp: Append_warning_def split: pstate.splits option.splits
          dest!: chan_send_sent_by [where p = p] dest: producer_cong)
next
  case (EvRecord q)
  with assms show ?thesis
    by (cases "q = p")
       (auto simp: Append_record_def split: pstate.splits option.splits
          dest!: chan_send_sent_by [where p = p] dest: producer_cong)
next
  case EvLoop
  with assms show ?thesis
    by (auto simp: listenForAppends_def producer_def sent_by_def split: if_splits list.splits)
next
  case EvClose
  with assms show ?thesis
    by (auto simp: Close_call_def producer_def sent_by_def split: cstate.splits)
next
  case EvDrain
  with assms show ?thesis
    by (auto simp: waitUntilEmpty_def producer_def sent_by_def split: cstate.splits if_splits)
next
  case EvCloseFile
  with assms show ?thesis
    by (auto simp: Close_file_def producer_def sent_by_def split: cstate.splits prod.splits)
qed

lemma run_of_other:
  "run E evs s = Some s' \<Longrightarrow> \<not> list_ex (is_call_of p) evs \<Longrightarrow> producer s' p = PReturned r \<Longrightarrow>
     (producer s p = PReturned r \<and> sent_by p s' = sent_by p s) \<or>
     (\<exists>log. producer s p = PWarn log \<and> r = None \<and>
            sent_by p s' = sent_by p s @ [fullWarningLog E, log]) \<or>
     (\<exists>log. producer s p = PRecord log \<and> r = None \<and> sent_by p s' = sent_by p s @ [log])"
proof (induction evs arbitrary: s)
  case Nil
  then show ?case by simp
next
  case (Cons ev evs)
  then obtain s1 where 1: "step E ev s = Some s1" and 2: "run E evs s1 = Some s'"
    by (auto split: option.splits)
  from Cons.prems have 3: "\<not> is_call_of p ev" and 4: "\<not> list_ex (is_call_of p) evs"
    by simp_all
  from Cons.IH [OF 2 4 Cons.prems(3)] step_of_other [OF 1 3] show ?case
    by auto
qed


text \<open>
  Claim C5 (overflow behaviour of \<^verbatim>\<open>Append\<close>). Take a call of \<^verbatim>\<open>Append\<close> by thread \<open>p\<close>
  and any run of the system after its first step in which \<open>p\<close> makes no further call.
  If the call has returned, it has returned nil, and what \<open>p\<close> has sent on the channel
  in between is the record alone when the queue had room at the \<^verbatim>\<open>select\<close>, and the
  warning followed by the record when it was full. With room the \<^verbatim>\<open>select\<close> itself
  puts the record at the end of the queue and returns. The two sends after a full queue
  happen only when the queue has room (they block until then) and put the warning,
  then the record, at the end of the queue. The warning is a record of the
  appender's own, of level \<^verbatim>\<open>WARN\<close>, whose message says that the channel is full and
  whose argument is the capacity, 4096.
\<close>

theorem append_overflow:
  "(Append_select p log s = Some s1 \<and> run E evs s1 = Some s2 \<and> \<not> list_ex (is_call_of p) evs \<and>
    producer s2 p = PReturned r \<longrightarrow>
      r = None \<and>
      sent_by p s2 =
        sent_by p s @ (if length (appendCh s) < APPEND_CHANNEL_SIZE then [log]
                       else [fullWarningLog E, log])) \<and>
   (Append_select p log s = Some s1 \<longrightarrow>
      (if length (appendCh s) < APPEND_CHANNEL_SIZE
       then appendCh s1 = appendCh s @ [log] \<and> producer s1 p = PReturned None
       else appendCh s1 = appendCh s \<and> producer s1 p = PWarn log)) \<and>
   (Append_warning E p sw = Some sw' \<longrightarrow>
      length (appendCh sw) < APPEND_CHANNEL_SIZE \<and>
      appendCh sw' = appendCh sw @ [fullWarningLog E] \<and>
      (\<exists>l. producer sw p = PWarn l \<and> producer sw' p = PRecord l)) \<and>
   (Append_record p sr = Some sr' \<longrightarrow>
      length (appendCh sr) < APPEND_CHANNEL_SIZE \<and>
      (\<exists>l. producer sr p = PRecord l \<and> appendCh sr' = appendCh sr @ [l]) \<and>
      producer sr' p = PReturned None) \<and>
   Prefix (fullWarningLog E) = ''RollingFileAppender'' \<and>
   Level (fullWarningLog E) = WARN \<and>
   MessageFmt (fullWarningLog E) =
     ''appendCh is full. You may want to increase APPEND_CHANNEL_SIZE (currently %d).'' \<and>
   Args (fullWarningLog E) = [IntArg 4096]"
proof -
  have b: "Append_select p log s = Some s1 \<longrightarrow>
      (if length (appendCh s) < APPEND_CHANNEL_SIZE
       then appendCh s1 = appendCh s @ [log] \<and> producer s1 p = PReturned None \<and>
            sent_by p s1 = sent_by p s @ [log]
       else appendCh s1 = appendCh s \<and> producer s1 p = PWarn log \<and> sent_by p s1 = sent_by p s)"
    by (auto simp: Append_select_def split: pstate.splits option.splits
        dest!: chan_send_sent_by [where p = p]) (auto simp: chan_send_def set_producer_def)
  have a: "Append_select p log s = Some s1 \<and> run E evs s1 = Some s2 \<and>
    \<not> list_ex (is_call_of p) evs \<and> producer s2 p = PReturned r \<longrightarrow>
      r = None \<and>
      sent_by p s2 =
        sent_by p s @ (if length (appendCh s) < APPEND_CHANNEL_SIZE then [log]
                       else [fullWarningLog E, log])"
  proof (intro impI, elim conjE)
    assume 1: "Append_select p log s = Some s1" and 2: "run E evs s1 = Some s2"
      and 3: "\<not> list_ex (is_call_of p) evs" and 4: "producer s2 p = PReturned r"
    from run_of_other [OF 2 3 4] b 1
    show "r = None \<and>
      sent_by p s2 =
        sent_by p s @ (if length (appendCh s) < APPEND_CHANNEL_SIZE then [log]
                       else [fullWarningLog E, log])"
      by (auto split: if_splits)
  qed
  have c: "Append_warning E p sw = Some sw' \<longrightarrow>
      length (appendCh sw) < APPEND_CHANNEL_SIZE \<and>
      appendCh sw' = appendCh sw @ [fullWarningLog E] \<and>
      (\<exists>l. producer sw p = PWarn l \<and> producer sw' p = PRecord l)"
    by (auto simp: Append_warning_def set_producer_def split: pstate.splits option.splits
        dest!: chan_send_sent_by [where p = p])
       (auto simp: producer_def update_conv')
  have d: "Append_record p sr = Some sr' \<longrightarrow>
      length (appendCh sr) < APPEND_CHANNEL_SIZE \<and>
      (\<exists>l. producer sr p = PRecord l \<and> appendCh sr' = appendCh sr @ [l]) \<and>
      producer sr' p = PReturned None"
    by (auto simp: Append_record_def set_producer_def split: pstate.splits option.splits
        dest!: chan_send_sent_by [where p = p])
       (auto simp: producer_def update_conv')
  have e: "Prefix (fullWarningLog E) = ''RollingFileAppender'' \<and>
     Level (fullWarningLog E) = WARN \<and>
     MessageFmt (fullWarningLog E) =
       ''appendCh is full. You may want to increase APPEND_CHANNEL_SIZE (currently %d).'' \<and>
     Args (fullWarningLog E) = [IntArg 4096]"
    by (simp add: fullWarningLog_def internalWarningLog_def simpleLog_def APPEND_CHANNEL_SIZE_def
        split: prod.splits)
  from a b c d e show ?thesis
    by (simp split: if_splits)
qed


lemma FormatLog_demo [simp]: "FormatLog demo_env (demo_record m) = m"
  by (simp add: demo_env_def demo_record_def simpleLog_def)

lemma replicate_4096: "replicate 4096 x = x # replicate 4095 x"
proof -
  have "(4096::nat) = Suc 4095" by simp
  then show ?thesis by (simp only: replicate_Suc)
qed

lemma replicate_4095: "replicate 4095 x = x # replicate 4094 x"
proof -
  have "(4095::nat) = Suc 4094" by simp
  then show ?thesis by (simp only: replicate_Suc)
qed

lemma full_run:
  "map_option (\<lambda>s. (producer s 0, sent_by 0 s, appendCh s))
     (run demo_env [EvLoop, EvWarning 0, EvLoop, EvRecord 0]
        (set_producer 0 (PWarn (demo_record ''C'')) full_sys)) =
   Some (PReturned None, [fullWarningLog demo_env, demo_record ''C''],
         replicate 4094 (demo_record ''B'') @ [fullWarningLog demo_env, demo_record ''C''])"
  by (simp add: full_sys_def fresh_sys_def sys_defs sent_by_def replicate_4096 replicate_4095
      plain_appender_def stat_world_def reallyAppend.simps os_defs)


theorem append_overflow_witness:
  "length (appendCh full_sys) = APPEND_CHANNEL_SIZE \<and>
   Append_select 0 (demo_record ''C'') full_sys =
     Some (set_producer 0 (PWarn (demo_record ''C'')) full_sys) \<and>
   Append_warning demo_env 0 (set_producer 0 (PWarn (demo_record ''C'')) full_sys) = None \<and>
   \<not> list_ex (is_call_of 0) [EvLoop, EvWarning 0, EvLoop, EvRecord 0] \<and>
   (\<exists>s2. run demo_env [EvLoop, EvWarning 0, EvLoop, EvRecord 0]
           (set_producer 0 (PWarn (demo_record ''C'')) full_sys) = Some s2 \<and>
         producer s2 0 = PReturned None \<and>
         sent_by 0 s2 = sent_by 0 full_sys @ [fullWarningLog demo_env, demo_record ''C''] \<and>
         appendCh s2 =
           replicate 4094 (demo_record ''B'') @ [fullWarningLog demo_env, demo_record ''C''])"
proof -
  have l: "length (appendCh full_sys) = APPEND_CHANNEL_SIZE"
    by (simp add: full_sys_def APPEND_CHANNEL_SIZE_def)
  have p0: "producer full_sys 0 = PReady"
    by (simp add: producer_def full_sys_def fresh_sys_def)
  have cs: "chan_send 0 x full_sys = None" for x
    by (simp add: chan_send_def l)
  have cw: "chan_send 0 x (set_producer 0 st full_sys) = None" for x st
    by (simp add: chan_send_def set_producer_def l)
  have 1: "Append_select 0 (demo_record ''C'') full_sys =
      Some (set_producer 0 (PWarn (demo_record ''C'')) full_sys)"
    by (simp add: Append_select_def p0 cs)
  have w: "Append_warning demo_env 0 (set_producer 0 (PWarn (demo_record ''C'')) full_sys) = None"
    by (simp add: Append_warning_def cw)
  have n: "\<not> list_ex (is_call_of 0) [EvLoop, EvWarning 0, EvLoop, EvRecord 0]"
    by simp
  from full_run obtain s2 where
    2: "run demo_env [EvLoop, EvWarning 0, EvLoop, EvRecord 0]
          (set_producer 0 (PWarn (demo_record ''C'')) full_sys) = Some s2" and
    3: "producer s2 0 = PReturned None" and
    4: "appendCh s2 =
          replicate 4094 (demo_record ''B'') @ [fullWarningLog demo_env, demo_record ''C'']"
    by auto
  from append_overflow [where p = 0 and log = "demo_record ''C''" and s = full_sys and
      ?s1.0 = "set_producer 0 (PWarn (demo_record ''C'')) full_sys" and E = demo_env and
      evs = "[EvLoop, EvWarning 0, EvLoop, EvRecord 0]" and ?s2.0 = s2 and r = None]
    l 1 2 3 n
  have 5: "sent_by 0 s2 = sent_by 0 full_sys @ [fullWarningLog demo_env, demo_record ''C'']"
    by simp
  from l 1 w n 2 3 4 5 show ?thesis
    by blast
qed

subsection \<open>Writes after Close\<close>

lemma keeps_refl [simp]: "keeps w w"
  by (simp add: keeps_def)

lemma keeps_trans: "keeps w w1 \<Longrightarrow> keeps w1 w2 \<Longrightarrow> keeps w w2"
  by (fastforce simp: keeps_def)

lemma keeps_files_eq: "files w' = files w \<Longrightarrow> keeps w w'"
  by (simp add: keeps_def)

lemma keeps_errHandler [simp]: "keeps w (errHandler e w)"
  by (simp add: keeps_def errHandler_def)

lemma keeps_next_fault: "keeps w (snd (next_fault w))"
  by (simp add: keeps_def next_fault_def split: list.splits)

lemma keeps_os_OpenFile_append: "keeps w (snd (os_OpenFile_append p w))"
  by (auto simp: keeps_def os_OpenFile_append_def new_file_def logcall_def next_fault_def nth_append
      split: list.splits option.splits prod.splits)

lemma keeps_file_Stat: "keeps w (snd (file_Stat fp w))"
  by (auto simp: keeps_def file_Stat_def logcall_def next_fault_def
      split: list.splits option.splits prod.splits)

lemma keeps_file_WriteString: "keeps w (snd (file_WriteString fp msg w))"
  by (auto simp: keeps_def file_WriteString_def logcall_def next_fault_def Let_def nth_list_update
      open_file_def split: list.splits option.splits prod.splits if_splits)

lemma keeps_file_Sync: "keeps w (snd (file_Sync fp w))"
  by (auto simp: keeps_def file_Sync_def logcall_def next_fault_def
      split: list.splits option.splits prod.splits)

lemma keeps_file_Close: "keeps w (snd (file_Close fp w))"
  by (auto simp: keeps_def file_Close_def logcall_def next_fault_def Let_def nth_list_update
      open_file_def split: list.splits option.splits prod.splits if_splits)

lemma keeps_os_Rename: "keeps w (snd (os_Rename a b w))"
  by (auto simp: keeps_def os_Rename_def logcall_def next_fault_def
      split: list.splits option.splits prod.splits)

lemma keeps_os_OpenFile_rdwr: "keeps w (snd (os_OpenFile_rdwr p w))"
  by (auto simp: keeps_def os_OpenFile_rdwr_def new_file_def logcall_def next_fault_def nth_append
      split: list.splits option.splits prod.splits)

lemma keeps_os_Create: "keeps w (snd (os_Create p w))"
  by (auto simp: keeps_def os_Create_def new_file_def logcall_def next_fault_def nth_append
      split: list.splits option.splits prod.splits)

lemma keeps_then_err: "keeps w w1 \<Longrightarrow> keeps w (errHandler e w1)"
  by (simp add: keeps_def errHandler_def)

lemma keeps_renameLogFile: "keeps w (snd (snd (renameLogFile self a b w)))"
proof -
  obtain r w1 where r: "os_Rename a b w = (r, w1)" by (cases "os_Rename a b w")
  from keeps_os_Rename [of w a b] r have k1: "keeps w w1" by simp
  show ?thesis
  proof (cases r)
    case None
    with r k1 show ?thesis by (simp add: renameLogFile_def)
  next
    case (Some e)
    let ?w = "errHandler (RenameError a b e) w1"
    obtain r2 w2 where o: "os_OpenFile_rdwr a ?w = (r2, w2)" by (cases "os_OpenFile_rdwr a ?w")
    from keeps_os_OpenFile_rdwr [of ?w a] o have "keeps ?w w2" by simp
    with k1 have "keeps w w2" by (blast intro: keeps_trans keeps_then_err)
    with Some r o show ?thesis
      by (auto simp: renameLogFile_def keeps_then_err split: sum.splits)
  qed
qed

lemma keeps_untracked: "keeps w (snd (reallyAppend E self log False w))"
proof (cases "file self")
  case None
  then show ?thesis by (simp add: reallyAppend_untracked)
next
  case (Some f)
  obtain n r w1 where wr: "file_WriteString (Some f) (FormatLog E log) w = ((n, r), w1)"
    by (metis surj_pair)
  from keeps_file_WriteString [of w "Some f" "FormatLog E log"] wr have "keeps w w1" by simp
  with Some wr show ?thesis
    by (cases r) (simp_all add: reallyAppend_untracked keeps_then_err)
qed

lemma keeps_logHeader: "keeps w (snd (logHeader E self w))"
  by (cases "headerGenerator self") (simp_all add: logHeader.simps keeps_untracked)

lemma keeps_rotate: "keeps w (snd (rotate E self w))"
proof -
  let ?p = "absPath self"
  obtain cerr w1 where c: "file_Close (file self) w = (cerr, w1)" by (cases "file_Close (file self) w")
  define wc where "wc = (case cerr of Some e \<Rightarrow> errHandler (CloseError ?p e) w1 | None \<Rightarrow> w1)"
  from keeps_file_Close [of w "file self"] c have "keeps w w1" by simp
  then have k1: "keeps w wc" by (simp add: wc_def keeps_then_err split: option.splits)
  obtain self' ok w2 where rn: "renameLogFile self ?p (newRotatedFilename E ?p) wc = (self', ok, w2)"
    by (metis surj_pair)
  from keeps_renameLogFile [of wc self ?p "newRotatedFilename E ?p"] rn have "keeps wc w2" by simp
  with k1 have k2: "keeps w w2" by (rule keeps_trans)
  show ?thesis
  proof (cases ok)
    case False
    with c rn wc_def have "snd (rotate E self w) = w2" by (simp add: rotate.simps)
    with k2 show ?thesis by simp
  next
    case True
    obtain r w3 where cr: "os_Create ?p w2 = (r, w3)" by (cases "os_Create ?p w2")
    from keeps_os_Create [of w2 ?p] cr have "keeps w2 w3" by simp
    with k2 have k3: "keeps w w3" by (rule keeps_trans)
    show ?thesis
    proof (cases r)
      case (Inl e)
      with True c rn wc_def cr have "snd (rotate E self w) = errHandler (OpenError ?p e) w3"
        by (simp add: rotate.simps)
      with k3 show ?thesis by (simp add: keeps_then_err)
    next
      case (Inr f)
      with True c rn wc_def cr
      have "snd (rotate E self w) = snd (logHeader E (self\<lparr>file := Some f\<rparr>) w3)"
        by (simp add: rotate.simps)
      with k3 keeps_logHeader [of w3 E "self\<lparr>file := Some f\<rparr>"] show ?thesis
        by (auto intro: keeps_trans)
    qed
  qed
qed

lemma keeps_reallyAppend: "keeps w (snd (reallyAppend E self log t w))"
proof (cases "file self")
  case None
  then show ?thesis by (simp add: reallyAppend.simps)
next
  case (Some f)
  obtain n r w1 where wr: "file_WriteString (Some f) (FormatLog E log) w = ((n, r), w1)"
    by (metis surj_pair)
  from keeps_file_WriteString [of w "Some f" "FormatLog E log"] wr have k1: "keeps w w1" by simp
  show ?thesis
  proof (cases r)
    case (Some e)
    with \<open>file self = Some f\<close> wr k1 show ?thesis by (simp add: reallyAppend.simps keeps_then_err)
  next
    case None
    show ?thesis
    proof (cases "t \<and> curFileSize self + of_nat n > MaxFileSize self")
      case False
      with None \<open>file self = Some f\<close> wr k1 show ?thesis by (auto simp: reallyAppend.simps)
    next
      case True
      with None \<open>file self = Some f\<close> wr have "snd (reallyAppend E self log t w) =
          snd (rotate E (self\<lparr>curFileSize := curFileSize self + of_nat n\<rparr>) w1)"
        by (simp add: reallyAppend.simps)
      with k1 keeps_rotate [of w1 E "self\<lparr>curFileSize := curFileSize self + of_nat n\<rparr>"]
      show ?thesis by (auto intro: keeps_trans)
    qed
  qed
qed

lemma step_keeps: "step E ev s = Some s' \<Longrightarrow> keeps (os s) (os s')"
proof (cases ev)
  case EvLoop
  assume "step E ev s = Some s'"
  with EvLoop show ?thesis
    using keeps_reallyAppend [of "os s" E "loopSelf s" _ True] keeps_file_Sync [of "os s" "file (loopSelf s)"]
    by (auto simp: listenForAppends_def split: if_splits list.splits)
next
  case EvCloseFile
  assume "step E ev s = Some s'"
  with EvCloseFile show ?thesis
    using keeps_file_Close [of "os s"]
    by (auto simp: Close_file_def split: cstate.splits prod.splits) (metis snd_conv)
qed (auto simp: sys_defs keeps_files_eq split: pstate.splits option.splits if_splits cstate.splits)

lemma run_keeps: "run E evs s = Some s' \<Longrightarrow> keeps (os s) (os s')"
proof (induction evs arbitrary: s)
  case Nil
  then show ?case by simp
next
  case (Cons ev evs)
  then obtain s1 where 1: "step E ev s = Some s1" and 2: "run E evs s1 = Some s'"
    by (auto split: option.splits)
  from Cons.IH [OF 2] step_keeps [OF 1] show ?case by (rule keeps_trans [rotated])
qed


lemma keeps_length: "keeps w w' \<Longrightarrow> f < length (files w) \<Longrightarrow> f < length (files w')"
  by (simp add: keeps_def)

lemma keeps_closed:
  "keeps w w' \<Longrightarrow> f < length (files w) \<Longrightarrow> closed (files w ! f) \<Longrightarrow> closed (files w' ! f)"
  by (simp add: keeps_def)

lemma file_Close_closes:
  "f < length (files w) \<Longrightarrow> closed (files (snd (file_Close (Some f) w)) ! f)"
proof -
  assume f: "f < length (files w)"
  obtain flt w1 where nf: "next_fault w = (flt, w1)" by (cases "next_fault w")
  from next_fault_fields [OF nf] have "files w1 = files w" by simp
  with f nf show ?thesis
    by (auto simp: file_Close_def logcall_def Let_def open_file_def split: option.splits)
qed

lemma os_OpenFile_append_handle:
  "os_OpenFile_append p w = (Inr f, w1) \<Longrightarrow> f < length (files w1)"
  by (auto simp: os_OpenFile_append_def new_file_def logcall_def split: prod.splits option.splits)

lemma New_close_inv:
  assumes "New E filename maxFileSize hg w = Inr s0"
  shows "\<exists>f. close_inv (appender s0) f s0"
proof -
  from assms obtain p where p: "filepath_Abs E filename = Inr p"
    by (auto simp: New_def split: sum.splits)
  from assms p obtain f w1 where o: "os_OpenFile_append p w = (Inr f, w1)"
    by (auto simp: New_def split: sum.splits prod.splits)
  from assms p o obtain n w2 where st: "file_Stat (Some f) w1 = (Inr n, w2)"
    by (auto simp: New_def split: sum.splits prod.splits)
  let ?a = "\<lparr>MaxFileSize = maxFileSize, file = Some f, absPath = p, curFileSize = of_nat n,
             headerGenerator = hg\<rparr>"
  from assms p o st have s0: "s0 = \<lparr>os = snd (logHeader E ?a w2), appendCh = [], sentLog = [],
      appender = ?a, loopSelf = ?a, needsSync = False, producers = [], closer = CReady\<rparr>"
    by (simp add: New_def Let_def)
  from keeps_file_Stat [of w1 "Some f"] st have "keeps w1 w2" by simp
  with keeps_logHeader [of w2 E ?a] have "keeps w1 (snd (logHeader E ?a w2))"
    by (rule keeps_trans [rotated])
  with os_OpenFile_append_handle [OF o] have "f < length (files (snd (logHeader E ?a w2)))"
    by (rule keeps_length [rotated])
  with s0 have "close_inv (appender s0) f s0"
    by (simp add: close_inv_def)
  then show ?thesis ..
qed

lemma step_close_inv:
  assumes "close_inv a f s" and "step E ev s = Some s'"
  shows "close_inv a f s'"
proof -
  from assms(1) have a: "appender s = a" "loopSelf s = a" "file a = Some f"
    and l: "f < length (files (os s))"
    by (simp_all add: close_inv_def)
  from step_keeps_struct [OF assms(2)] a have a': "appender s' = a" "loopSelf s' = a"
    by simp_all
  note k = step_keeps [OF assms(2)]
  from keeps_length [OF k l] have l': "f < length (files (os s'))" .
  have c: "case closer s' of
         CReady \<Rightarrow> True
       | CWaiting self \<Rightarrow> self = a
       | CDrained self \<Rightarrow> self = a
       | CReturned r \<Rightarrow> closed (files (os s') ! f)"
  proof (cases ev)
    case EvCloseFile
    with assms show ?thesis
      using file_Close_closes [OF l]
      by (auto simp: Close_file_def close_inv_def split: cstate.splits prod.splits)
  next
    case EvLoop
    with assms(2) have "closer s' = closer s"
      by (auto simp: listenForAppends_def split: if_splits list.splits)
    with assms(1) keeps_closed [OF k l] show ?thesis
      by (auto simp: close_inv_def split: cstate.splits)
  next
    case EvClose
    with assms show ?thesis
      by (auto simp: Close_call_def close_inv_def split: cstate.splits)
  next
    case EvDrain
    with assms show ?thesis
      by (auto simp: waitUntilEmpty_def close_inv_def split: cstate.splits if_splits)
  next
    case (EvAppend q lg)
    with assms(2) have "closer s' = closer s" "os s' = os s"
      by (auto simp: sys_defs split: pstate.splits option.splits if_splits)
    with assms(1) show ?thesis by (auto simp: close_inv_def split: cstate.splits)
  next
    case (EvWarning q)
    with assms(2) have "closer s' = closer s" "os s' = os s"
      by (auto simp: sys_defs split: pstate.splits option.splits if_splits)
    with assms(1) show ?thesis by (auto simp: close_inv_def split: cstate.splits)
  next
    case (EvRecord q)
    with assms(2) have "closer s' = closer s" "os s' = os s"
      by (auto simp: sys_defs split: pstate.splits option.splits if_splits)
    with assms(1) show ?thesis by (auto simp: close_inv_def split: cstate.splits)
  qed
  from a' a(3) l' c show ?thesis by (simp add: close_inv_def)
qed

lemma run_close_inv:
  "close_inv a f s \<Longrightarrow> run E evs s = Some s' \<Longrightarrow> close_inv a f s'"
proof (induction evs arbitrary: s)
  case Nil
  then show ?case by simp
next
  case (Cons ev evs)
  then obtain s1 where 1: "step E ev s = Some s1" and 2: "run E evs s1 = Some s'"
    by (auto split: option.splits)
  from Cons.IH [OF step_close_inv [OF Cons.prems(1) 1] 2] show ?case .
qed

lemma write_on_closed:
  assumes "f < length (files w)" and "closed (files w ! f)"
  shows "\<exists>e w1. file_WriteString (Some f) msg w = ((0, Some e), w1) \<and> inodes w1 = inodes w \<and>
           sink w1 = sink w \<and> trace w1 = trace w @ [(CallWrite (Some f) msg, Some e)]"
proof -
  obtain flt w1 where nf: "next_fault w = (flt, w1)" by (cases "next_fault w")
  from next_fault_fields [OF nf] assms nf show ?thesis
    by (cases flt) (auto simp: file_WriteString_def logcall_def open_file_def)
qed

lemma reallyAppend_on_closed:
  assumes "file self = Some f" and "f < length (files w)" and "closed (files w ! f)"
  shows "\<exists>e. sink (snd (reallyAppend E self log t w)) = sink w @ [WriteError (absPath self) e] \<and>
           trace (snd (reallyAppend E self log t w)) =
             trace w @ [(CallWrite (Some f) (FormatLog E log), Some e)] \<and>
           inodes (snd (reallyAppend E self log t w)) = inodes w"
proof -
  from write_on_closed [OF assms(2,3), of "FormatLog E log"] obtain e w1 where
    "file_WriteString (Some f) (FormatLog E log) w = ((0, Some e), w1)" "inodes w1 = inodes w"
    "sink w1 = sink w" "trace w1 = trace w @ [(CallWrite (Some f) (FormatLog E log), Some e)]"
    by blast
  with assms(1) show ?thesis
    by (auto simp: reallyAppend.simps errHandler_def)
qed

text \<open>
  Claim C7 (post-Close refusal), as amended. \<^verbatim>\<open>Close\<close> closes the file and leaves the
  handle in the struct, so a later write is not refused with \<open>NoFileError\<close>: after
  \<^verbatim>\<open>Close\<close> has returned, every turn of the loop that takes a record calls
  \<^verbatim>\<open>WriteString\<close> on the closed file, the call fails, the callback receives a
  \<open>WriteError\<close> with the appender's path and the cause, and no file content changes.
\<close>

theorem writes_after_close:
  assumes "New E filename maxFileSize hg w = Inr s0"
    and "run E evs1 s0 = Some s1" and "closer s1 = CReturned r"
    and "run E evs2 s1 = Some s2" and "appendCh s2 = log # rest"
  shows "\<exists>s3 e. listenForAppends E s2 = Some s3 \<and> appendCh s3 = rest \<and>
           sink (os s3) = sink (os s2) @ [WriteError (absPath (appender s0)) e] \<and>
           trace (os s3) =
             trace (os s2) @ [(CallWrite (file (appender s0)) (FormatLog E log), Some e)] \<and>
           inodes (os s3) = inodes (os s2) \<and> file (appender s0) \<noteq> None"
proof -
  from New_close_inv [OF assms(1)] obtain f where i0: "close_inv (appender s0) f s0" ..
  from run_close_inv [OF i0 assms(2)] have i1: "close_inv (appender s0) f s1" .
  with assms(3) have c1: "f < length (files (os s1))" "closed (files (os s1) ! f)"
    by (simp_all add: close_inv_def)
  note k = run_keeps [OF assms(4)]
  from keeps_length [OF k c1(1)] keeps_closed [OF k c1] have
    c2: "f < length (files (os s2))" "closed (files (os s2) ! f)" .
  from run_close_inv [OF i1 assms(4)] have
    a: "loopSelf s2 = appender s0" "file (appender s0) = Some f"
    by (simp_all add: close_inv_def)
  from reallyAppend_on_closed [OF _ c2, of "loopSelf s2" E log True] a
  obtain e where
    "sink (snd (reallyAppend E (loopSelf s2) log True (os s2))) =
       sink (os s2) @ [WriteError (absPath (appender s0)) e]"
    "trace (snd (reallyAppend E (loopSelf s2) log True (os s2))) =
       trace (os s2) @ [(CallWrite (Some f) (FormatLog E log), Some e)]"
    "inodes (snd (reallyAppend E (loopSelf s2) log True (os s2))) = inodes (os s2)"
    by auto
  with a show ?thesis
    by (simp add: loop_takes_record [OF assms(5)])
qed


lemma run_to_closed_sys: "run demo_env [EvClose, EvDrain, EvCloseFile] fresh_sys = Some closed_sys"
  by (simp add: sys_defs fresh_sys_def closed_sys_def plain_appender_def stat_world_def os_defs)

lemma run_to_closed_sys_queued:
  "run demo_env [EvAppend 0 (demo_record ''A'')] closed_sys = Some closed_sys_queued"
  by (simp add: sys_defs fresh_sys_def closed_sys_def closed_sys_queued_def)

theorem writes_after_close_witness:
  "New demo_env ''/log'' 3 None empty_world = Inr fresh_sys \<and>
   run demo_env [EvClose, EvDrain, EvCloseFile] fresh_sys = Some closed_sys \<and>
   closer closed_sys = CReturned None \<and>
   run demo_env [EvAppend 0 (demo_record ''A'')] closed_sys = Some closed_sys_queued \<and>
   appendCh closed_sys_queued = demo_record ''A'' # [] \<and>
   (\<exists>s3 e. listenForAppends demo_env closed_sys_queued = Some s3 \<and> appendCh s3 = [] \<and>
      sink (os s3) = sink (os closed_sys_queued) @ [WriteError (absPath (appender fresh_sys)) e] \<and>
      trace (os s3) =
        trace (os closed_sys_queued) @
          [(CallWrite (file (appender fresh_sys)) (FormatLog demo_env (demo_record ''A'')), Some e)] \<and>
      inodes (os s3) = inodes (os closed_sys_queued) \<and> file (appender fresh_sys) \<noteq> None)"
proof -
  have c: "closer closed_sys = CReturned None"
    by (simp add: closed_sys_def)
  have q: "appendCh closed_sys_queued = demo_record ''A'' # []"
    by (simp add: closed_sys_queued_def)
  from writes_after_close [OF New_fresh_sys run_to_closed_sys c run_to_closed_sys_queued q]
    New_fresh_sys run_to_closed_sys c run_to_closed_sys_queued q
  show ?thesis by blast
qed

text \<open>
  The claim as it is written fails on the system that \<^verbatim>\<open>New\<close> gives on the empty
  world: \<^verbatim>\<open>Close\<close> returns, a record is appended, and the loop calls \<^verbatim>\<open>WriteString\<close>
  on the closed file and reports a \<open>WriteError\<close>, not \<open>NoFileError\<close>.
\<close>

theorem post_close_write_counterexample:
  "New demo_env ''/log'' 3 None empty_world = Inr fresh_sys \<and>
   run demo_env [EvClose, EvDrain, EvCloseFile] fresh_sys = Some closed_sys \<and>
   closer closed_sys = CReturned None \<and>
   run demo_env [EvAppend 0 (demo_record ''A'')] closed_sys = Some closed_sys_queued \<and>
   listenForAppends demo_env closed_sys_queued = Some closed_sys_dropped \<and>
   sink (os closed_sys_dropped) = [WriteError ''/log'' ErrClosed] \<and>
   sink (os closed_sys_dropped) \<noteq> sink (os closed_sys_queued) @ [NoFileError] \<and>
   trace (os closed_sys_dropped) =
     trace (os closed_sys_queued) @ [(CallWrite (Some 0) ''A'', Some ErrClosed)]"
proof -
  have c: "closer closed_sys = CReturned None"
    by (simp add: closed_sys_def)
  have l: "listenForAppends demo_env closed_sys_queued = Some closed_sys_dropped"
    by (simp add: sys_defs fresh_sys_def closed_sys_def closed_sys_queued_def closed_sys_dropped_def
        plain_appender_def stat_world_def os_defs reallyAppend.simps)
  have t: "sink (os closed_sys_dropped) = [WriteError ''/log'' ErrClosed]"
    "sink (os closed_sys_queued) = []"
    "trace (os closed_sys_dropped) =
       trace (os closed_sys_queued) @ [(CallWrite (Some 0) ''A'', Some ErrClosed)]"
    by (simp_all add: closed_sys_dropped_def closed_sys_queued_def closed_sys_def stat_world_def)
  from t l New_fresh_sys run_to_closed_sys c run_to_closed_sys_queued show ?thesis
    by simp
qed

subsection \<open>Runs on which the loop's copy of the struct matters\<close>

lemmas run_defs = sys_defs demo_defs appender_defs os_defs New_def Let_def

text \<open>
  \<^verbatim>\<open>Close\<close> gets to closing the file only after the loop, outside \<^verbatim>\<open>needsSync\<close>, has
  answered a request with the queue empty.
\<close>

lemma close_after_drain:
  "(Close_file s = Some s' \<longrightarrow> (\<exists>self. closer s = CDrained self)) \<and>
   (waitUntilEmpty s = Some s' \<and> closer s' = CDrained self \<longrightarrow>
      appendCh s = [] \<and> \<not> needsSync s \<and> closer s = CWaiting self)"
  by (auto simp: Close_file_def waitUntilEmpty_def split: cstate.splits if_splits)

text \<open>
  Claim C1 (delivery completeness), on the code. \<^verbatim>\<open>New\<close> on the empty world with a
  limit of three bytes; a record of five bytes and one of two are appended, the loop
  takes both and syncs, and \<^verbatim>\<open>Close\<close> runs to its return. The first write rotates the
  file. The loop still holds the handle that the rotation closed, so the second write
  fails: \<^verbatim>\<open>Close\<close> has returned, the queue is empty, and the second record is in no
  file.
\<close>

theorem delivery_after_rotation:
  "(case New demo_env ''/log'' 3 None empty_world of
      Inl e \<Rightarrow> None
    | Inr s0 \<Rightarrow>
        map_option (\<lambda>s. (closer s, appendCh s, inodes (os s), dir (os s), sink (os s)))
          (run demo_env
             [EvAppend 0 (demo_record ''AAAAA''), EvAppend 0 (demo_record ''BB''),
              EvLoop, EvLoop, EvLoop, EvClose, EvDrain, EvCloseFile] s0)) =
   Some (CReturned (Some ErrClosed), [], [''AAAAA'', []],
         [(''/log.2012-03-04T05-06-07'', 0), (''/log'', 1)], [WriteError ''/log'' ErrClosed])"
  by (simp add: run_defs)

text \<open>
  Claim C2 (size counter), on the code. After one successful tracked write of two
  bytes into the empty file the counter of the loop's struct, and of the struct that
  \<^verbatim>\<open>New\<close> returned, is still 0.
\<close>

theorem size_counter_not_accumulated:
  "(case New demo_env ''/log'' 3 None empty_world of
      Inl e \<Rightarrow> None
    | Inr s0 \<Rightarrow>
        map_option (\<lambda>s. (curFileSize (loopSelf s), curFileSize (appender s), inodes (os s),
                         trace (os s)))
          (run demo_env [EvAppend 0 (demo_record ''AA''), EvLoop] s0)) =
   Some (0, 0, [''AA''],
         [(CallOpenAppend ''/log'', None), (CallStat (Some 0), None),
          (CallWrite (Some 0) ''AA'', None)])"
  by (simp add: run_defs)

text \<open>
  Claim C3 (rotation trigger), on the code. With a limit of three bytes, two tracked
  writes of two bytes each succeed and no rotation follows: the file has four bytes.
  And on a file that had two bytes, the write of two more rotates it, and after the
  rotation the loop's counter is 2.
\<close>

theorem rotation_not_triggered:
  "(case New demo_env ''/log'' 3 None empty_world of
      Inl e \<Rightarrow> None
    | Inr s0 \<Rightarrow>
        map_option (\<lambda>s. (MaxFileSize (loopSelf s), inodes (os s), dir (os s), trace (os s)))
          (run demo_env
             [EvAppend 0 (demo_record ''AA''), EvLoop, EvAppend 0 (demo_record ''BB''), EvLoop]
             s0)) =
   Some (3, [''AABB''], [(''/log'', 0)],
         [(CallOpenAppend ''/log'', None), (CallStat (Some 0), None),
          (CallWrite (Some 0) ''AA'', None), (CallWrite (Some 0) ''BB'', None)]) \<and>
   (case New demo_env ''/log'' 3 None old_world of
      Inl e \<Rightarrow> None
    | Inr s0 \<Rightarrow>
        map_option (\<lambda>s. (curFileSize (loopSelf s), inodes (os s), dir (os s), trace (os s)))
          (run demo_env [EvAppend 0 (demo_record ''AA''), EvLoop] s0)) =
   Some (2, [''XXAA'', []], [(''/log.2012-03-04T05-06-07'', 0), (''/log'', 1)],
         [(CallOpenAppend ''/log'', None), (CallStat (Some 0), None),
          (CallWrite (Some 0) ''AA'', None), (CallClose (Some 0), None),
          (CallRename ''/log'' ''/log.2012-03-04T05-06-07'', None), (CallCreate ''/log'', None)])"
  by (simp add: run_defs old_world_def)

text \<open>
  Claim C6 (rename failure), on the code. The rename of the rotation fails and the
  reopening succeeds: the loop keeps the closed handle, the file object of the
  reopening is referred to by nothing, and the next record is lost to a
  \<open>WriteError\<close>. When the reopening fails too, the loop's handle is not nil, and the
  next write is reported as a \<open>WriteError\<close>, not as \<open>NoFileError\<close>.
\<close>

theorem rename_failure_loses_file:
  "(case New demo_env ''/log'' 3 None rename_fails_world of
      Inl e \<Rightarrow> None
    | Inr s0 \<Rightarrow>
        map_option (\<lambda>s. (file (loopSelf s), map closed (files (os s)), inodes (os s), sink (os s)))
          (run demo_env
             [EvAppend 0 (demo_record ''AAAAA''), EvLoop, EvAppend 0 (demo_record ''BB''), EvLoop]
             s0)) =
   Some (Some 0, [True, False], [''AAAAA''],
         [RenameError ''/log'' ''/log.2012-03-04T05-06-07'' (ErrInjected 1),
          WriteError ''/log'' ErrClosed]) \<and>
   (case New demo_env ''/log'' 3 None reopen_fails_world of
      Inl e \<Rightarrow> None
    | Inr s0 \<Rightarrow>
        map_option (\<lambda>s. (file (loopSelf s), curFileSize (loopSelf s), map closed (files (os s)),
                         inodes (os s), sink (os s)))
          (run demo_env
             [EvAppend 0 (demo_record ''AAAAA''), EvLoop, EvAppend 0 (demo_record ''BB''), EvLoop]
             s0)) =
   Some (Some 0, 0, [True], [''AAAAA''],
         [RenameError ''/log'' ''/log.2012-03-04T05-06-07'' (ErrInjected 1),
          OpenError ''/log'' (ErrInjected 2), WriteError ''/log'' ErrClosed])"
  by (simp add: run_defs rename_fails_world_def reopen_fails_world_def)

end
